theory Spec2Isabelle
  imports Main "HOL-Library.Word"
begin

section \<open>Data model\<close>

text \<open>
  The program is one React component (\<open>App\<close>) whose handlers orchestrate three host
  capabilities: the origin-private file system, device capture and the media recorder.
  The component state (every \<open>useState\<close> and \<open>useRef\<close> of \<open>App\<close>) and the part of the
  host the handlers act on are kept in one record, passed through every handler.
  Handlers are run one at a time, each to completion, with a render in between, so a
  state variable read by a handler has the value the previous handler left.
  \<open>console.log\<close> output is not modelled.
\<close>

type_synonym byte = "8 word"
type_synonym bytes = "byte list"

datatype RecordingType = Webcam | Screen

text \<open>The string value of a \<open>RecordingType\<close> (\<open>"webcam" | "screen"\<close>).\<close>

fun typeName :: "RecordingType \<Rightarrow> string" where
  "typeName Webcam = ''webcam''"
| "typeName Screen = ''screen''"

text \<open>A rejected promise or thrown exception of the host; the handlers read \<open>message\<close> only.\<close>

datatype DOMException = DOMException (exceptionName: string) (message: string)

definition NotFoundError :: DOMException where
  "NotFoundError = DOMException ''NotFoundError''
     ''A requested file or directory could not be found at the time an operation was processed.''"

definition TypeMismatchError :: DOMException where
  "TypeMismatchError = DOMException ''TypeMismatchError''
     ''The path supplied exists, but was not an entry of requested type.''"

text \<open>An entry of the storage root: a file with its bytes, or a directory.\<close>

datatype entry = FileEntry bytes | DirectoryEntry

fun kind :: "entry \<Rightarrow> string" where
  "kind (FileEntry _) = ''file''"
| "kind DirectoryEntry = ''directory''"

datatype FileSystemFileHandle = FileHandle (name: string)

text \<open>
  A writable stream collects the chunks written to it, in order; \<open>close\<close> commits their
  concatenation to the entry \<open>target\<close>, \<open>abort\<close> discards them.
\<close>

record FileSystemWritableFileStream =
  target :: string
  written :: "bytes list"

datatype MediaStream = UserMedia | DisplayMedia

text \<open>
  A recorder with its stream and the \<open>type\<close> that its \<open>ondataavailable\<close> and \<open>onstop\<close>
  closures captured in \<open>startRecording\<close>.
\<close>

record MediaRecorder =
  recStream :: MediaStream
  recType :: RecordingType

text \<open>
  A \<open>File\<close> picked by the user or read back from storage, given by the chunks its
  \<open>stream()\<close> delivers; its byte content is their concatenation. How a file is cut
  into chunks is the host's choice, so every list of chunks is admitted.
\<close>

record File =
  file_name :: string
  chunks :: "bytes list"

definition fileBytes :: "File \<Rightarrow> bytes" where
  "fileBytes f = concat (chunks f)"

definition fileSize :: "File \<Rightarrow> nat" where
  "fileSize f = length (fileBytes f)"

record world =
  isSupported :: bool
  isRecording :: bool
  currentRecordingType :: "RecordingType option"
  mediaRecorderRef :: "MediaRecorder option"
  mediaStreamRef :: "MediaStream option"
  writableStreamRef :: "FileSystemWritableFileStream option"
  currentFileHandleRef :: "FileSystemFileHandle option"
  activeWebcamFileHandle :: "FileSystemFileHandle option"
  activeScreenFileHandle :: "FileSystemFileHandle option"
  webcamPlaybackUrl :: "string option"
  screenPlaybackUrl :: "string option"
  activeTextFileHandle :: "FileSystemFileHandle option"
  fileContent :: string
  fileList :: "string list"
  isInspecting :: bool
  isLoading :: bool
  error :: string
  success :: string
  opfs :: "(string \<times> entry) list"
  liveStreams :: "MediaStream list"
  persistedStorage :: bool
  writeLog :: "(string \<times> bytes) list"
  faults :: "nat \<Rightarrow> DOMException option"
  calls :: nat

text \<open>
  The first eighteen fields are the component state, with the names of the source.
  The others are the host: \<open>opfs\<close> is the storage root (entries in enumeration order),
  \<open>liveStreams\<close> the capture streams whose tracks are live, \<open>persistedStorage\<close> the
  persistence flag of the storage, \<open>writeLog\<close> the trace of the write calls the host
  accepted (target and data), \<open>calls\<close> the number of host calls made so far and
  \<open>faults\<close> the host's failure schedule: the \<open>n\<close>-th host call is rejected with
  \<open>faults n\<close> when that is not \<open>None\<close>. Every awaited host call of the source goes
  through \<open>hostcall\<close>, so every \<open>catch\<close> block of the source can be reached.
\<close>

definition initialState :: world where
  "initialState = \<lparr>
     isSupported = False, isRecording = False, currentRecordingType = None,
     mediaRecorderRef = None, mediaStreamRef = None, writableStreamRef = None,
     currentFileHandleRef = None, activeWebcamFileHandle = None,
     activeScreenFileHandle = None, webcamPlaybackUrl = None, screenPlaybackUrl = None,
     activeTextFileHandle = None, fileContent = [], fileList = [],
     isInspecting = False, isLoading = False, error = [], success = [],
     opfs = [], liveStreams = [], persistedStorage = False, writeLog = [],
     faults = (\<lambda>_. None), calls = 0 \<rparr>"

section \<open>Host calls\<close>

type_synonym 'a io = "world \<Rightarrow> (DOMException + 'a) \<times> world"

text \<open>
  A host call: rejected when the failure schedule says so at this call, otherwise
  served by \<open>f\<close>, which may still reject for a reason of its own (a name that is
  not found). Either way the call is counted.
\<close>

definition hostcall :: "'a io \<Rightarrow> 'a io" where
  "hostcall f w =
     (case faults w (calls w) of
        Some e \<Rightarrow> (Inl e, w\<lparr>calls := Suc (calls w)\<rparr>)
      | None \<Rightarrow> f (w\<lparr>calls := Suc (calls w)\<rparr>))"

text \<open>Sequencing of awaited calls inside one \<open>try\<close> block: the first rejection ends it.\<close>

definition andThen :: "'a io \<Rightarrow> ('a \<Rightarrow> 'b io) \<Rightarrow> 'b io" where
  "andThen m f w = (case m w of (Inl e, w') \<Rightarrow> (Inl e, w') | (Inr x, w') \<Rightarrow> f x w')"

definition getDirectory :: "unit io" where
  "getDirectory = hostcall (\<lambda>w. (Inr (), w))"

definition getFileHandle :: "string \<Rightarrow> bool \<Rightarrow> FileSystemFileHandle io" where
  "getFileHandle n create = hostcall (\<lambda>w.
     (case map_of (opfs w) n of
        Some (FileEntry _) \<Rightarrow> (Inr (FileHandle n), w)
      | Some DirectoryEntry \<Rightarrow> (Inl TypeMismatchError, w)
      | None \<Rightarrow>
          if create then (Inr (FileHandle n), w\<lparr>opfs := opfs w @ [(n, FileEntry [])]\<rparr>)
          else (Inl NotFoundError, w)))"

text \<open>\<open>createWritable()\<close> without \<open>keepExistingData\<close>: the new stream starts empty.\<close>

definition createWritable :: "FileSystemFileHandle \<Rightarrow> FileSystemWritableFileStream io" where
  "createWritable fh = hostcall (\<lambda>w.
     (case map_of (opfs w) (name fh) of
        Some (FileEntry _) \<Rightarrow> (Inr \<lparr>target = name fh, written = []\<rparr>, w)
      | _ \<Rightarrow> (Inl NotFoundError, w)))"

definition writable_write :: "FileSystemWritableFileStream \<Rightarrow> bytes \<Rightarrow> FileSystemWritableFileStream io" where
  "writable_write wr d = hostcall (\<lambda>w.
     (Inr (wr\<lparr>written := written wr @ [d]\<rparr>), w\<lparr>writeLog := writeLog w @ [(target wr, d)]\<rparr>))"

text \<open>Committing replaces the bytes of the entry, or creates the entry when it is gone.\<close>

fun store :: "string \<Rightarrow> bytes \<Rightarrow> (string \<times> entry) list \<Rightarrow> (string \<times> entry) list" where
  "store n bs [] = [(n, FileEntry bs)]"
| "store n bs ((k, e) # es) = (if k = n then (n, FileEntry bs) # es else (k, e) # store n bs es)"

definition writable_close :: "FileSystemWritableFileStream \<Rightarrow> unit io" where
  "writable_close wr = hostcall (\<lambda>w. (Inr (), w\<lparr>opfs := store (target wr) (concat (written wr)) (opfs w)\<rparr>))"

definition writable_abort :: "FileSystemWritableFileStream \<Rightarrow> unit io" where
  "writable_abort wr = hostcall (\<lambda>w. (Inr (), w))"

definition removeEntry :: "string \<Rightarrow> unit io" where
  "removeEntry n = hostcall (\<lambda>w.
     (case map_of (opfs w) n of
        None \<Rightarrow> (Inl NotFoundError, w)
      | Some _ \<Rightarrow> (Inr (), w\<lparr>opfs := filter (\<lambda>(k, e). k \<noteq> n) (opfs w)\<rparr>)))"

text \<open>
  The three awaited calls with which \<open>handleFileSelect\<close> and \<open>startRecording\<close> both
  open their new entry: \<open>getDirectory()\<close>, \<open>root.getFileHandle(newFileName, { create: true })\<close>
  and \<open>fileHandle.createWritable()\<close>.
\<close>

definition createFile :: "string \<Rightarrow> (FileSystemFileHandle \<times> FileSystemWritableFileStream) io" where
  "createFile newFileName =
     andThen getDirectory (\<lambda>root.
     andThen (getFileHandle newFileName True) (\<lambda>fileHandle.
     andThen (createWritable fileHandle) (\<lambda>writable.
     Pair (Inr (fileHandle, writable)))))"

text \<open>\<open>root.values()\<close>, consumed by \<open>for await\<close>: one host call giving all entries.\<close>

definition values_root :: "(string \<times> entry) list io" where
  "values_root = hostcall (\<lambda>w. (Inr (opfs w), w))"

definition getFile :: "FileSystemFileHandle \<Rightarrow> File io" where
  "getFile fh = hostcall (\<lambda>w.
     (case map_of (opfs w) (name fh) of
        Some (FileEntry bs) \<Rightarrow> (Inr \<lparr>file_name = name fh, chunks = [bs]\<rparr>, w)
      | _ \<Rightarrow> (Inl NotFoundError, w)))"

text \<open>
  \<open>file.text()\<close>: the host's decoding of the bytes as text. The decoder is no code of
  this repository; it is a parameter.
\<close>

definition text_of :: "(bytes \<Rightarrow> string) \<Rightarrow> File \<Rightarrow> string io" where
  "text_of decode f = hostcall (\<lambda>w. (Inr (decode (fileBytes f)), w))"

definition readerRead :: "unit io" where
  "readerRead = hostcall (\<lambda>w. (Inr (), w))"

definition getUserMedia :: "MediaStream io" where
  "getUserMedia = hostcall (\<lambda>w. (Inr UserMedia, w\<lparr>liveStreams := UserMedia # liveStreams w\<rparr>))"

definition getDisplayMedia :: "MediaStream io" where
  "getDisplayMedia = hostcall (\<lambda>w. (Inr DisplayMedia, w\<lparr>liveStreams := DisplayMedia # liveStreams w\<rparr>))"

text \<open>\<open>stream.getTracks().forEach((track) => track.stop())\<close>\<close>

definition stopTracks :: "MediaStream \<Rightarrow> world \<Rightarrow> world" where
  "stopTracks s w = w\<lparr>liveStreams := remove1 s (liveStreams w)\<rparr>"

definition newMediaRecorder :: "MediaStream \<Rightarrow> RecordingType \<Rightarrow> MediaRecorder io" where
  "newMediaRecorder s ty = hostcall (\<lambda>w. (Inr \<lparr>recStream = s, recType = ty\<rparr>, w))"

definition recorderStart :: "unit io" where
  "recorderStart = hostcall (\<lambda>w. (Inr (), w))"

definition recorderStop :: "unit io" where
  "recorderStop = hostcall (\<lambda>w. (Inr (), w))"

definition persisted :: "bool io" where
  "persisted = hostcall (\<lambda>w. (Inr (persistedStorage w), w))"

text \<open>\<open>navigator.storage.persist()\<close> resolves to whether the grant was given.\<close>

definition persist :: "bool \<Rightarrow> bool io" where
  "persist granted = hostcall (\<lambda>w.
     (Inr (persistedStorage w \<or> granted), w\<lparr>persistedStorage := persistedStorage w \<or> granted\<rparr>))"

section \<open>Helpers of the language\<close>

definition startsWith :: "string \<Rightarrow> string \<Rightarrow> bool" where
  "startsWith s p = (take (length p) s = p)"

text \<open>The decimal digit of a number below ten; \<open>toString\<close> applies it to such numbers only.\<close>

definition digit :: "nat \<Rightarrow> char" where
  "digit d = ''0123456789'' ! d"

fun toString :: "nat \<Rightarrow> string" where
  "toString n = (if n < 10 then [digit n] else toString (n div 10) @ [digit (n mod 10)])"

declare toString.simps [simp del]

text \<open>\<open>value.subarray(i, j)\<close> of a typed array.\<close>

definition subarray :: "'a list \<Rightarrow> nat \<Rightarrow> nat \<Rightarrow> 'a list" where
  "subarray v i j = take (j - i) (drop i v)"

section \<open>The handlers of \<open>App\<close>\<close>

definition clearMessages :: "world \<Rightarrow> world" where
  "clearMessages w = w\<lparr>error := '''', success := ''''\<rparr>"

subsection \<open>File inspector\<close>

definition handleListFiles :: "world \<Rightarrow> world" where
  "handleListFiles w =
     (let w1 = w\<lparr>isInspecting := True\<rparr>;
          w2 = (case andThen getDirectory (\<lambda>root. values_root) w1 of
                  (Inr entries, w') \<Rightarrow>
                    (let files = map fst (filter (\<lambda>(n, e). kind e = ''file'') entries)
                     in w'\<lparr>fileList := files,
                           success := (if length files > 0
                                       then ''Found '' @ toString (length files) @ '' file(s).''
                                       else ''Filesystem is empty.'')\<rparr>)
                | (Inl err, w') \<Rightarrow> w'\<lparr>error := ''Could not list files: '' @ message err\<rparr>)
      in w2\<lparr>isInspecting := False\<rparr>)"

definition handleLoadFile :: "string \<Rightarrow> world \<Rightarrow> world" where
  "handleLoadFile fileName w =
     (let w1 = (clearMessages w)\<lparr>isLoading := True\<rparr>;
          w2 = (case andThen getDirectory (\<lambda>root. getFileHandle fileName False) w1 of
                  (Inr fileHandle, w') \<Rightarrow>
                    if startsWith fileName ''text-'' then
                      w'\<lparr>activeTextFileHandle := Some fileHandle, fileContent := '''',
                         activeWebcamFileHandle := None, webcamPlaybackUrl := None,
                         activeScreenFileHandle := None, screenPlaybackUrl := None,
                         success := ''Loaded text file: '' @ fileName\<rparr>
                    else if startsWith fileName ''webcam-'' then
                      w'\<lparr>activeWebcamFileHandle := Some fileHandle, webcamPlaybackUrl := None,
                         activeTextFileHandle := None, fileContent := '''',
                         activeScreenFileHandle := None, screenPlaybackUrl := None,
                         success := ''Loaded webcam file: '' @ fileName\<rparr>
                    else if startsWith fileName ''screen-'' then
                      w'\<lparr>activeScreenFileHandle := Some fileHandle, screenPlaybackUrl := None,
                         activeTextFileHandle := None, fileContent := '''',
                         activeWebcamFileHandle := None, webcamPlaybackUrl := None,
                         success := ''Loaded screen file: '' @ fileName\<rparr>
                    else w'\<lparr>error := ''Unknown file type: '' @ fileName\<rparr>
                | (Inl err, w') \<Rightarrow> w'\<lparr>error := ''Could not load file: '' @ message err\<rparr>)
      in w2\<lparr>isLoading := False\<rparr>)"

text \<open>\<open>handle?.name === fileName\<close> for a handle that may be \<open>null\<close>.\<close>

definition nameIs :: "FileSystemFileHandle option \<Rightarrow> string \<Rightarrow> bool" where
  "nameIs h fileName = (case h of None \<Rightarrow> False | Some fh \<Rightarrow> name fh = fileName)"

definition handleDeleteFile :: "string \<Rightarrow> world \<Rightarrow> world" where
  "handleDeleteFile fileName w =
     (let w1 = (clearMessages w)\<lparr>isLoading := True\<rparr>;
          w2 = (case andThen getDirectory (\<lambda>root. removeEntry fileName) w1 of
                  (Inr _, w') \<Rightarrow>
                    (let w3 = w'\<lparr>success := ''Deleted file: '' @ fileName\<rparr>;
                         w4 = (if (startsWith fileName ''text-'' \<and>
                                     nameIs (activeTextFileHandle w) fileName) \<or>
                                  (startsWith fileName ''webcam-'' \<and>
                                     nameIs (activeWebcamFileHandle w) fileName) \<or>
                                  (startsWith fileName ''screen-'' \<and>
                                     nameIs (activeScreenFileHandle w) fileName)
                               then w3\<lparr>activeTextFileHandle := None, fileContent := '''',
                                       activeWebcamFileHandle := None, webcamPlaybackUrl := None,
                                       activeScreenFileHandle := None, screenPlaybackUrl := None\<rparr>
                               else w3)
                     in handleListFiles w4)
                | (Inl err, w') \<Rightarrow> w'\<lparr>error := ''Could not delete file: '' @ message err\<rparr>)
      in w2\<lparr>isLoading := False\<rparr>)"

subsection \<open>Startup\<close>

text \<open>
  What the capability probe finds in \<open>navigator\<close> and \<open>window\<close>, and what the user
  agent answers to a persistence request.
\<close>

record navigator =
  hasStorage :: bool
  hasGetDirectory :: bool
  hasMediaDevices :: bool
  hasMediaRecorder :: bool
  persistGranted :: bool

text \<open>
  The two persistence calls are awaited outside any \<open>try\<close>: when the host rejects one
  of them, \<open>checkSupportAndLoad\<close> ends there.
\<close>

definition checkSupportAndLoad :: "navigator \<Rightarrow> world \<Rightarrow> world" where
  "checkSupportAndLoad nav w =
     (if hasStorage nav \<and> hasGetDirectory nav \<and> hasMediaDevices nav \<and> hasMediaRecorder nav
      then
        (case persisted w of
           (Inl err, w1) \<Rightarrow> w1
         | (Inr isPersisted, w1) \<Rightarrow>
             (case (if \<not> isPersisted
                    then andThen (persist (persistGranted nav)) (\<lambda>r. Pair (Inr ())) w1
                    else (Inr (), w1)) of
                (Inl err, w2) \<Rightarrow> w2
              | (Inr _, w2) \<Rightarrow> handleListFiles (w2\<lparr>isSupported := True\<rparr>)))
      else w\<lparr>isSupported := False\<rparr>)"

subsection \<open>Text files\<close>

definition CHUNK_SIZE :: nat where
  "CHUNK_SIZE = 5 * 1024"

text \<open>
  The inner loop \<open>for (let i = 0; i < value.length; i += CHUNK_SIZE)\<close>, with the size
  of a sub-chunk as a parameter. With size \<open>0\<close> and a non-empty \<open>value\<close> the loop of
  the source never ends: the result is then \<open>None\<close>. A rejected write ends the loop
  with the exception; the stream is returned for the \<open>catch\<close> block.
\<close>

partial_function (option) writeSubChunks ::
  "nat \<Rightarrow> bytes \<Rightarrow> nat \<Rightarrow> FileSystemWritableFileStream \<Rightarrow> world \<Rightarrow>
     ((DOMException + unit) \<times> FileSystemWritableFileStream \<times> world) option" where
  "writeSubChunks cs val i writable w =
     (if i < length val then
        (case writable_write writable (subarray val i (i + cs)) w of
           (Inl err, w') \<Rightarrow> Some (Inl err, writable, w')
         | (Inr writable', w') \<Rightarrow> writeSubChunks cs val (i + cs) writable' w')
      else Some (Inr (), writable, w))"

declare writeSubChunks.simps [code]

text \<open>
  The outer loop \<open>while (true) { const { done, value } = await reader.read(); ... }\<close>
  over the chunks the file's stream delivers; the last \<open>read\<close> reports \<open>done\<close>.
\<close>

fun readLoop ::
  "nat \<Rightarrow> bytes list \<Rightarrow> FileSystemWritableFileStream \<Rightarrow> world \<Rightarrow>
     ((DOMException + unit) \<times> FileSystemWritableFileStream \<times> world) option" where
  "readLoop cs [] writable w =
     (case readerRead w of
        (Inl err, w') \<Rightarrow> Some (Inl err, writable, w')
      | (Inr _, w') \<Rightarrow> Some (Inr (), writable, w'))"
| "readLoop cs (val # rest) writable w =
     (case readerRead w of
        (Inl err, w') \<Rightarrow> Some (Inl err, writable, w')
      | (Inr _, w') \<Rightarrow>
          (case writeSubChunks cs val 0 writable w' of
             None \<Rightarrow> None
           | Some (Inl err, writable', w'') \<Rightarrow> Some (Inl err, writable', w'')
           | Some (Inr _, writable', w'') \<Rightarrow> readLoop cs rest writable' w''))"

text \<open>The part of the \<open>try\<close> block that runs once \<open>writable\<close> is assigned, up to \<open>close\<close>.\<close>

definition writeFile ::
  "nat \<Rightarrow> File \<Rightarrow> FileSystemWritableFileStream \<Rightarrow> world \<Rightarrow>
     ((DOMException + unit) \<times> FileSystemWritableFileStream \<times> world) option" where
  "writeFile cs file writable w =
     (case readLoop cs (chunks file) writable w of
        None \<Rightarrow> None
      | Some (Inl err, writable', w') \<Rightarrow> Some (Inl err, writable', w')
      | Some (Inr _, writable', w') \<Rightarrow>
          (case writable_close writable' w' of
             (Inl err, w'') \<Rightarrow> Some (Inl err, writable', w'')
           | (Inr _, w'') \<Rightarrow> Some (Inr (), writable', w'')))"

text \<open>
  \<open>handleFileSelect\<close> with the sub-chunk size, the value of \<open>crypto.randomUUID()\<close> and
  \<open>event.target.files?.[0]\<close> as arguments. \<open>None\<close> is a run that does not return.
  When \<open>abort\<close> is rejected inside the \<open>catch\<close> block the exception leaves the handler
  after \<open>finally\<close>; the state is the same as when \<open>abort\<close> resolves.
\<close>

definition handleFileSelectWith :: "nat \<Rightarrow> string \<Rightarrow> File option \<Rightarrow> world \<Rightarrow> world option" where
  "handleFileSelectWith cs uuid files w =
     (case files of
        None \<Rightarrow> Some w
      | Some file \<Rightarrow>
          (let w0 = (clearMessages w)\<lparr>isLoading := True, fileContent := '''',
                                       activeTextFileHandle := None\<rparr>;
               newFileName = ''text-'' @ uuid @ ''.txt''
           in case createFile newFileName w0 of
                (Inl err, w1) \<Rightarrow>
                  Some (w1\<lparr>error := ''Upload failed: '' @ message err, isLoading := False\<rparr>)
              | (Inr (fileHandle, writable), w1) \<Rightarrow>
                  (case writeFile cs file writable w1 of
                     None \<Rightarrow> None
                   | Some (Inl err, writable', w2) \<Rightarrow>
                       Some ((snd (writable_abort writable'
                                (w2\<lparr>error := ''Upload failed: '' @ message err\<rparr>)))
                             \<lparr>isLoading := False\<rparr>)
                   | Some (Inr _, writable', w2) \<Rightarrow>
                       Some ((handleListFiles
                                (w2\<lparr>activeTextFileHandle := Some fileHandle,
                                    success := ''File \"'' @ newFileName @
                                               ''\" uploaded and loaded successfully!''\<rparr>))
                             \<lparr>isLoading := False\<rparr>))))"

definition handleFileSelect :: "string \<Rightarrow> File option \<Rightarrow> world \<Rightarrow> world option" where
  "handleFileSelect = handleFileSelectWith CHUNK_SIZE"

text \<open>The show action of the text card; \<open>if (fileContent)\<close> is true of a non-empty string.\<close>

definition handleShowFile :: "(bytes \<Rightarrow> string) \<Rightarrow> world \<Rightarrow> world" where
  "handleShowFile decode w =
     (case activeTextFileHandle w of
        None \<Rightarrow> w\<lparr>error := ''No text file is loaded.''\<rparr>
      | Some h \<Rightarrow>
          (let w1 = clearMessages w in
           if fileContent w \<noteq> '''' then w1\<lparr>fileContent := ''''\<rparr>
           else
             (let w2 = w1\<lparr>isLoading := True\<rparr>;
                  w3 = (case andThen (getFile h) (text_of decode) w2 of
                          (Inr content, w') \<Rightarrow>
                            w'\<lparr>fileContent := content,
                               success := ''Showing content for \"'' @ name h @ ''\".''\<rparr>
                        | (Inl err, w') \<Rightarrow>
                            w'\<lparr>error := ''Could not read file: '' @ message err\<rparr>)
              in w3\<lparr>isLoading := False\<rparr>)))"

subsection \<open>Media recording\<close>

text \<open>
  \<open>recorder.ondataavailable\<close>: \<open>event.data\<close> is the slice. A rejected write is put in
  the error slot and the recording goes on.
\<close>

definition ondataavailable :: "bytes \<Rightarrow> world \<Rightarrow> world" where
  "ondataavailable data w =
     (case writableStreamRef w of
        None \<Rightarrow> w
      | Some writable \<Rightarrow>
          if length data > 0 then
            (case writable_write writable data w of
               (Inr writable', w') \<Rightarrow> w'\<lparr>writableStreamRef := Some writable'\<rparr>
             | (Inl err, w') \<Rightarrow> w'\<lparr>error := ''Recording error: '' @ message err\<rparr>)
          else w)"

text \<open>\<open>recorder.onstop\<close>, with the \<open>type\<close> its closure captured.\<close>

definition onstop :: "RecordingType \<Rightarrow> world \<Rightarrow> world" where
  "onstop ty w =
     (let w1 = (case writableStreamRef w of
                  None \<Rightarrow> w
                | Some writable \<Rightarrow> (snd (writable_close writable w))\<lparr>writableStreamRef := None\<rparr>);
          w2 = (case currentFileHandleRef w1 of
                  None \<Rightarrow> w1
                | Some fileHandle \<Rightarrow>
                    (let w3 = (if ty = Webcam
                               then w1\<lparr>activeWebcamFileHandle := Some fileHandle,
                                       webcamPlaybackUrl := None\<rparr>
                               else w1\<lparr>activeScreenFileHandle := Some fileHandle,
                                       screenPlaybackUrl := None\<rparr>);
                         w4 = w3\<lparr>success := ''Recording \"'' @ name fileHandle @
                                               ''\" saved and loaded!''\<rparr>
                     in (handleListFiles w4)\<lparr>currentFileHandleRef := None\<rparr>));
          w5 = (case mediaStreamRef w2 of None \<Rightarrow> w2 | Some s \<Rightarrow> stopTracks s w2)
      in w5\<lparr>mediaStreamRef := None, mediaRecorderRef := None, isRecording := False,
             currentRecordingType := None\<rparr>)"

text \<open>
  \<open>startRecording\<close> with the value of \<open>crypto.randomUUID()\<close> as an argument. The
  constructor of the recorder and \<open>recorder.start\<close> are called outside any \<open>try\<close>: when
  the host throws there, the handler ends with the state it has reached.
\<close>

definition startRecording :: "RecordingType \<Rightarrow> string \<Rightarrow> world \<Rightarrow> world" where
  "startRecording ty uuid w =
     (let w1 = clearMessages w in
      if isRecording w then w1\<lparr>error := ''Another recording is already in progress.''\<rparr>
      else
        (let w2 = w1\<lparr>fileContent := '''', webcamPlaybackUrl := None,
                      screenPlaybackUrl := None\<rparr>
         in case (if ty = Webcam then getUserMedia w2 else getDisplayMedia w2) of
              (Inl err, w3) \<Rightarrow> w3\<lparr>error := ''Could not start recording: '' @ message err\<rparr>
            | (Inr stream, w3) \<Rightarrow>
                (let w4 = w3\<lparr>mediaStreamRef := Some stream\<rparr>;
                     fileExtension = ''webm'';
                     newFileName = typeName ty @ ''-'' @ uuid @ ''.'' @ fileExtension
                 in case createFile newFileName w4 of
                      (Inl err, w5) \<Rightarrow>
                        (let w6 = w5\<lparr>error := ''Could not create recording file: '' @
                                                message err\<rparr>;
                             w7 = (case mediaStreamRef w6 of
                                     None \<Rightarrow> w6
                                   | Some s \<Rightarrow> stopTracks s w6)
                         in w7\<lparr>mediaStreamRef := None\<rparr>)
                    | (Inr (fileHandle, writable), w5) \<Rightarrow>
                        (let w6 = w5\<lparr>writableStreamRef := Some writable,
                                      currentFileHandleRef := Some fileHandle,
                                      isRecording := True,
                                      currentRecordingType := Some ty\<rparr>
                         in case newMediaRecorder stream ty w6 of
                              (Inl err, w7) \<Rightarrow> w7
                            | (Inr recorder, w7) \<Rightarrow>
                                snd (recorderStart (w7\<lparr>mediaRecorderRef := Some recorder\<rparr>))))))"

text \<open>
  \<open>stopRecording\<close>: \<open>recorder.stop()\<close> makes the host hand the data gathered since the
  last slice (\<open>final\<close>, possibly empty) to \<open>ondataavailable\<close> and then run \<open>onstop\<close>.
\<close>

definition stopRecording :: "bytes \<Rightarrow> world \<Rightarrow> world" where
  "stopRecording final w =
     (case mediaRecorderRef w of
        None \<Rightarrow> w
      | Some recorder \<Rightarrow>
          if \<not> isRecording w then w
          else (case recorderStop w of
                  (Inl err, w1) \<Rightarrow> w1
                | (Inr _, w1) \<Rightarrow> onstop (recType recorder) (ondataavailable final w1)))"

text \<open>One recording session: start, the slices the recorder delivers, stop.\<close>

definition recordingSession :: "RecordingType \<Rightarrow> string \<Rightarrow> bytes list \<Rightarrow> bytes \<Rightarrow> world \<Rightarrow> world" where
  "recordingSession ty uuid slices final w =
     stopRecording final (fold ondataavailable slices (startRecording ty uuid w))"

section \<open>Observing the writes of a handler\<close>

text \<open>The write calls that the host accepted between the state \<open>w\<close> and the later state \<open>w'\<close>.\<close>

definition newWrites :: "world \<Rightarrow> world \<Rightarrow> (string \<times> bytes) list" where
  "newWrites w w' = drop (length (writeLog w)) (writeLog w')"

section \<open>States and hosts of the examples\<close>

text \<open>A host that denies every request, and a state in which a text is displayed.\<close>

definition denyAll :: "nat \<Rightarrow> DOMException option" where
  "denyAll n = Some (DOMException ''NotAllowedError'' ''Permission denied'')"

definition textShown :: world where
  "textShown = initialState\<lparr>
     isSupported := True,
     opfs := [(''text-a.txt'', FileEntry [104, 105])],
     fileList := [''text-a.txt''],
     activeTextFileHandle := Some (FileHandle ''text-a.txt''),
     fileContent := ''hi''\<rparr>"

text \<open>A storage with one entry of each category and one of no category.\<close>

definition fourEntries :: world where
  "fourEntries = initialState\<lparr>
     isSupported := True,
     opfs := [(''text-a.txt'', FileEntry [104, 105]), (''webcam-b.webm'', FileEntry [1, 2]),
              (''screen-c.webm'', FileEntry [3]), (''unknown-xyz'', FileEntry [])],
     activeTextFileHandle := Some (FileHandle ''text-a.txt''),
     fileContent := ''hi'',
     activeWebcamFileHandle := Some (FileHandle ''webcam-b.webm''),
     webcamPlaybackUrl := Some ''blob:1''\<rparr>"

text \<open>A browser with every capability whose user agent refuses persistence.\<close>

definition refusingBrowser :: navigator where
  "refusingBrowser = \<lparr>hasStorage = True, hasGetDirectory = True, hasMediaDevices = True,
     hasMediaRecorder = True, persistGranted = False\<rparr>"

text \<open>A two-byte text file, delivered by its stream in one chunk.\<close>

definition notesFile :: File where
  "notesFile = \<lparr>file_name = ''notes.txt'', chunks = [[104, 105]]\<rparr>"

text \<open>
  The state after a webcam recording \<open>webcam-b.webm\<close> followed by the upload of
  \<open>text-a.txt\<close>: a webcam entry and a text entry are active together.
\<close>

definition twoActive :: world where
  "twoActive = initialState\<lparr>
     isSupported := True,
     activeWebcamFileHandle := Some (FileHandle ''webcam-b.webm''),
     activeTextFileHandle := Some (FileHandle ''text-a.txt''),
     fileList := [''webcam-b.webm'', ''text-a.txt''],
     success := ''Found 2 file(s).'',
     opfs := [(''webcam-b.webm'', FileEntry [1, 2]), (''text-a.txt'', FileEntry [104, 105])],
     writeLog := [(''webcam-b.webm'', [1, 2]), (''text-a.txt'', [104, 105])],
     calls := 24\<rparr>"

text \<open>A seven-byte file that its stream delivers in two chunks.\<close>

definition sevenBytes :: File where
  "sevenBytes = \<lparr>file_name = ''seven.txt'', chunks = [[1, 2, 3, 4, 5], [6, 7]]\<rparr>"

text \<open>A host that rejects its fifth call and no other.\<close>

definition rejectFifth :: "nat \<Rightarrow> DOMException option" where
  "rejectFifth n = (if n = 4 then Some (DOMException ''QuotaExceededError'' ''Quota exceeded'') else None)"

text \<open>The decoder of the examples: one character for each byte.\<close>

definition bytewise :: "bytes \<Rightarrow> string" where
  "bytewise bs = map (\<lambda>b. char_of (unat b)) bs"

text \<open>
  The state in which the component is mounted, with two entries left in the storage
  by an earlier visit.
\<close>

definition atStartup :: world where
  "atStartup = initialState\<lparr>
     opfs := [(''text-a.txt'', FileEntry [104, 105]), (''webcam-b.webm'', FileEntry [1, 2])]\<rparr>"

text \<open>A host that rejects its second call and no other.\<close>

definition rejectSecond :: "nat \<Rightarrow> DOMException option" where
  "rejectSecond n = (if n = 1 then Some (DOMException ''TypeError'' ''The operation failed'') else None)"

section \<open>Facts about the host calls\<close>

lemma map_of_store_same: "map_of (store n bs es) n = Some (FileEntry bs)"
  by (induction es) auto

lemma map_of_removed: "map_of (filter (\<lambda>(k, e). k \<noteq> n) es) n = None"
  by (induction es) auto

lemma writable_write_cases:
  "writable_write wr d w = (r, w') \<Longrightarrow>
     (\<exists>e. r = Inl e \<and> faults w (calls w) = Some e \<and> w' = w\<lparr>calls := Suc (calls w)\<rparr>) \<or>
     (r = Inr (wr\<lparr>written := written wr @ [d]\<rparr>) \<and> faults w (calls w) = None \<and>
      w' = w\<lparr>writeLog := writeLog w @ [(target wr, d)], calls := Suc (calls w)\<rparr>)"
  by (auto simp: writable_write_def hostcall_def split: option.splits)

lemma readerRead_cases:
  "readerRead w = (r, w') \<Longrightarrow>
     w' = w\<lparr>calls := Suc (calls w)\<rparr> \<and> (isl r \<longleftrightarrow> faults w (calls w) \<noteq> None)"
  by (auto simp: readerRead_def hostcall_def split: option.splits)

lemma writable_close_cases:
  "writable_close wr w = (r, w') \<Longrightarrow>
     (\<exists>e. r = Inl e \<and> faults w (calls w) = Some e \<and> w' = w\<lparr>calls := Suc (calls w)\<rparr>) \<or>
     (r = Inr () \<and> faults w (calls w) = None \<and>
      w' = w\<lparr>opfs := store (target wr) (concat (written wr)) (opfs w), calls := Suc (calls w)\<rparr>)"
  by (auto simp: writable_close_def hostcall_def split: option.splits)

lemma writable_abort_frame:
  "snd (writable_abort wr w) = w\<lparr>calls := Suc (calls w)\<rparr>"
  by (simp add: writable_abort_def hostcall_def split: option.splits)

text \<open>
  Opening the new entry changes the storage root and the call counter only; when it
  succeeds the entry is a file and the stream is empty; it succeeds when the host
  rejects nothing and the name is not taken by a directory.
\<close>

lemma createFile_result:
  assumes "createFile n w = (r, w')"
  shows "w' = w\<lparr>opfs := opfs w', calls := calls w'\<rparr>"
    and "opfs w' = opfs w \<or> opfs w' = opfs w @ [(n, FileEntry [])]"
    and "\<not> isl r \<Longrightarrow> r = Inr (FileHandle n, \<lparr>target = n, written = []\<rparr>) \<and>
           (\<exists>bs. map_of (opfs w') n = Some (FileEntry bs))"
    and "\<forall>k. faults w k = None \<Longrightarrow> map_of (opfs w) n \<noteq> Some DirectoryEntry \<Longrightarrow> \<not> isl r"
  using assms
  by (auto simp: createFile_def andThen_def getDirectory_def getFileHandle_def
      createWritable_def hostcall_def map_add_def
      split: option.splits entry.splits if_splits prod.splits sum.splits)

section \<open>Facts about the listing\<close>

lemma handleListFiles_frame:
  "activeTextFileHandle (handleListFiles w) = activeTextFileHandle w"
  "activeWebcamFileHandle (handleListFiles w) = activeWebcamFileHandle w"
  "activeScreenFileHandle (handleListFiles w) = activeScreenFileHandle w"
  "webcamPlaybackUrl (handleListFiles w) = webcamPlaybackUrl w"
  "screenPlaybackUrl (handleListFiles w) = screenPlaybackUrl w"
  "fileContent (handleListFiles w) = fileContent w"
  "opfs (handleListFiles w) = opfs w"
  "writeLog (handleListFiles w) = writeLog w"
  "faults (handleListFiles w) = faults w"
  "isSupported (handleListFiles w) = isSupported w"
  "isRecording (handleListFiles w) = isRecording w"
  "persistedStorage (handleListFiles w) = persistedStorage w"
  "liveStreams (handleListFiles w) = liveStreams w"
  by (simp_all add: handleListFiles_def andThen_def getDirectory_def values_root_def
      hostcall_def Let_def split: option.splits)

lemma handleListFiles_error:
  "error (handleListFiles w) = error w \<or>
   (\<exists>e. error (handleListFiles w) = ''Could not list files: '' @ message e)"
  by (auto simp: handleListFiles_def andThen_def getDirectory_def values_root_def
      hostcall_def Let_def split: option.splits)

lemma handleListFiles_ok:
  assumes "faults w (calls w) = None" and "faults w (Suc (calls w)) = None"
  shows "fileList (handleListFiles w) = map fst (filter (\<lambda>(n, e). kind e = ''file'') (opfs w))"
    and "error (handleListFiles w) = error w"
  using assms
  by (simp_all add: handleListFiles_def andThen_def getDirectory_def values_root_def
      hostcall_def Let_def)

section \<open>Recording: mutual exclusion and failed acquisition\<close>

text \<open>
  C3. Whenever a recording session is active, a start-recording request for any
  category is rejected with a user-visible error, leaves the session's write target,
  capture stream, file handle and category unchanged and creates no storage entry:
  the request changes the two message slots and nothing else, and calls the host
  not at all.
\<close>

theorem startRecording_rejected_while_recording:
  assumes "isRecording w"
  shows "(let w' = startRecording ty uuid w in
          error w' = ''Another recording is already in progress.'' \<and>
          writableStreamRef w' = writableStreamRef w \<and>
          mediaStreamRef w' = mediaStreamRef w \<and>
          currentFileHandleRef w' = currentFileHandleRef w \<and>
          currentRecordingType w' = currentRecordingType w \<and>
          mediaRecorderRef w' = mediaRecorderRef w \<and>
          isRecording w' \<and>
          opfs w' = opfs w \<and>
          calls w' = calls w \<and>
          w' = w\<lparr>error := ''Another recording is already in progress.'', success := ''''\<rparr>)"
  using assms by (simp add: startRecording_def clearMessages_def Let_def)

theorem startRecording_rejected_while_recording_witness:
  "isRecording (startRecording Webcam ''u1'' initialState) \<and>
   error (startRecording Screen ''u2'' (startRecording Webcam ''u1'' initialState))
     = ''Another recording is already in progress.'' \<and>
   opfs (startRecording Screen ''u2'' (startRecording Webcam ''u1'' initialState))
     = [(''webcam-u1.webm'', FileEntry [])] \<and>
   currentRecordingType (startRecording Screen ''u2'' (startRecording Webcam ''u1'' initialState))
     = Some Webcam"
proof -
  have rec: "isRecording (startRecording Webcam ''u1'' initialState)"
    by code_simp
  have before: "opfs (startRecording Webcam ''u1'' initialState) = [(''webcam-u1.webm'', FileEntry [])]"
    "currentRecordingType (startRecording Webcam ''u1'' initialState) = Some Webcam"
    by code_simp+
  from startRecording_rejected_while_recording [OF rec, of Screen "''u2''"] rec before
  show ?thesis by (simp add: Let_def)
qed

text \<open>
  C4, as the code has it. A start-recording request made while no recording is active
  and whose capture-stream acquisition the host rejects surfaces the error and starts
  no session: no storage entry is created, no session state is set and the three
  active-entry references are unchanged. The displayed text content and both playback
  URLs, however, are cleared, because the handler clears them before it asks for the
  stream.
\<close>

theorem startRecording_acquisition_rejected:
  assumes "\<not> isRecording w" and "faults w (calls w) = Some e"
  shows "(let w' = startRecording ty uuid w in
          error w' = ''Could not start recording: '' @ message e \<and>
          opfs w' = opfs w \<and>
          \<not> isRecording w' \<and>
          currentRecordingType w' = currentRecordingType w \<and>
          mediaRecorderRef w' = mediaRecorderRef w \<and>
          mediaStreamRef w' = mediaStreamRef w \<and>
          writableStreamRef w' = writableStreamRef w \<and>
          currentFileHandleRef w' = currentFileHandleRef w \<and>
          liveStreams w' = liveStreams w \<and>
          activeTextFileHandle w' = activeTextFileHandle w \<and>
          activeWebcamFileHandle w' = activeWebcamFileHandle w \<and>
          activeScreenFileHandle w' = activeScreenFileHandle w \<and>
          fileContent w' = '''' \<and>
          webcamPlaybackUrl w' = None \<and>
          screenPlaybackUrl w' = None)"
  using assms
  by (cases ty)
    (simp_all add: startRecording_def clearMessages_def getUserMedia_def getDisplayMedia_def
      hostcall_def Let_def)

theorem startRecording_acquisition_rejected_witness:
  "\<not> isRecording (textShown\<lparr>faults := denyAll\<rparr>) \<and>
   error (startRecording Webcam ''u1'' (textShown\<lparr>faults := denyAll\<rparr>))
     = ''Could not start recording: Permission denied'' \<and>
   opfs (startRecording Webcam ''u1'' (textShown\<lparr>faults := denyAll\<rparr>))
     = [(''text-a.txt'', FileEntry [104, 105])] \<and>
   activeTextFileHandle (startRecording Webcam ''u1'' (textShown\<lparr>faults := denyAll\<rparr>))
     = Some (FileHandle ''text-a.txt'')"
proof -
  let ?w = "textShown\<lparr>faults := denyAll\<rparr>"
  have h1: "\<not> isRecording ?w"
    by (simp add: textShown_def initialState_def)
  have h2: "faults ?w (calls ?w) = Some (DOMException ''NotAllowedError'' ''Permission denied'')"
    by (simp add: denyAll_def)
  from startRecording_acquisition_rejected [OF h1 h2, of Webcam "''u1''"] h1
  show ?thesis by (simp add: Let_def textShown_def initialState_def)
qed

text \<open>
  C4 as stated fails: with the text \<open>hi\<close> displayed, a webcam request whose stream the
  host denies leaves no text displayed.
\<close>

theorem startRecording_acquisition_clears_text:
  "fileContent (textShown\<lparr>faults := denyAll\<rparr>) = ''hi'' \<and>
   fileContent (startRecording Webcam ''u1'' (textShown\<lparr>faults := denyAll\<rparr>)) = '''' \<and>
   error (startRecording Webcam ''u1'' (textShown\<lparr>faults := denyAll\<rparr>))
     = ''Could not start recording: Permission denied''"
  by (simp add: startRecording_def clearMessages_def getUserMedia_def hostcall_def Let_def
      textShown_def initialState_def denyAll_def)

section \<open>Loading by name\<close>

lemma getFileHandle_existing:
  assumes "faults w (calls w) = None" and "faults w (Suc (calls w)) = None"
    and "map_of (opfs w) n = Some (FileEntry bs)"
  shows "andThen getDirectory (\<lambda>root. getFileHandle n False) w
           = (Inr (FileHandle n), w\<lparr>calls := Suc (Suc (calls w))\<rparr>)"
  using assms by (simp add: andThen_def getDirectory_def getFileHandle_def hostcall_def)

text \<open>
  C5. A load that succeeds (the host rejects neither call and the name resolves to a
  file of the storage root) of a name with the prefix \<open>text-\<close>, \<open>webcam-\<close> or \<open>screen-\<close>
  sets the active-entry reference of that category to the resolved entry, clears that
  category's transient companion (displayed text or playback URL) and clears the
  references and companions of the other two categories.
\<close>

theorem handleLoadFile_exclusive:
  assumes "faults w (calls w) = None" and "faults w (Suc (calls w)) = None"
    and "map_of (opfs w) fileName = Some (FileEntry bs)"
  shows "(let w' = handleLoadFile fileName w in
          (startsWith fileName ''text-'' \<longrightarrow>
             activeTextFileHandle w' = Some (FileHandle fileName) \<and> fileContent w' = '''' \<and>
             activeWebcamFileHandle w' = None \<and> webcamPlaybackUrl w' = None \<and>
             activeScreenFileHandle w' = None \<and> screenPlaybackUrl w' = None) \<and>
          (startsWith fileName ''webcam-'' \<longrightarrow>
             activeWebcamFileHandle w' = Some (FileHandle fileName) \<and> webcamPlaybackUrl w' = None \<and>
             activeTextFileHandle w' = None \<and> fileContent w' = '''' \<and>
             activeScreenFileHandle w' = None \<and> screenPlaybackUrl w' = None) \<and>
          (startsWith fileName ''screen-'' \<longrightarrow>
             activeScreenFileHandle w' = Some (FileHandle fileName) \<and> screenPlaybackUrl w' = None \<and>
             activeTextFileHandle w' = None \<and> fileContent w' = '''' \<and>
             activeWebcamFileHandle w' = None \<and> webcamPlaybackUrl w' = None))"
proof -
  have open_ok: "andThen getDirectory (\<lambda>root. getFileHandle fileName False)
                   ((clearMessages w)\<lparr>isLoading := True\<rparr>)
                 = (Inr (FileHandle fileName),
                    (clearMessages w)\<lparr>isLoading := True, calls := Suc (Suc (calls w))\<rparr>)"
    using getFileHandle_existing [of "(clearMessages w)\<lparr>isLoading := True\<rparr>" fileName bs] assms
    by (simp add: clearMessages_def)
  have excl: "\<not> (startsWith fileName ''text-'' \<and> startsWith fileName ''webcam-'')"
    "\<not> (startsWith fileName ''text-'' \<and> startsWith fileName ''screen-'')"
    "\<not> (startsWith fileName ''webcam-'' \<and> startsWith fileName ''screen-'')"
    by (cases fileName; simp add: startsWith_def)+
  show ?thesis
    unfolding handleLoadFile_def Let_def open_ok using excl by auto
qed

theorem handleLoadFile_exclusive_witness:
  "startsWith ''text-a.txt'' ''text-'' \<and>
   activeTextFileHandle (handleLoadFile ''text-a.txt'' fourEntries) = Some (FileHandle ''text-a.txt'') \<and>
   fileContent (handleLoadFile ''text-a.txt'' fourEntries) = '''' \<and>
   activeWebcamFileHandle (handleLoadFile ''text-a.txt'' fourEntries) = None \<and>
   webcamPlaybackUrl (handleLoadFile ''text-a.txt'' fourEntries) = None \<and>
   startsWith ''webcam-b.webm'' ''webcam-'' \<and>
   activeWebcamFileHandle (handleLoadFile ''webcam-b.webm'' fourEntries) = Some (FileHandle ''webcam-b.webm'') \<and>
   activeTextFileHandle (handleLoadFile ''webcam-b.webm'' fourEntries) = None \<and>
   startsWith ''screen-c.webm'' ''screen-'' \<and>
   activeScreenFileHandle (handleLoadFile ''screen-c.webm'' fourEntries) = Some (FileHandle ''screen-c.webm'') \<and>
   activeTextFileHandle (handleLoadFile ''screen-c.webm'' fourEntries) = None \<and>
   activeWebcamFileHandle (handleLoadFile ''screen-c.webm'' fourEntries) = None"
proof -
  have f: "faults fourEntries (calls fourEntries) = None"
    "faults fourEntries (Suc (calls fourEntries)) = None"
    by (simp_all add: fourEntries_def initialState_def)
  have e: "map_of (opfs fourEntries) ''text-a.txt'' = Some (FileEntry [104, 105])"
    "map_of (opfs fourEntries) ''webcam-b.webm'' = Some (FileEntry [1, 2])"
    "map_of (opfs fourEntries) ''screen-c.webm'' = Some (FileEntry [3])"
    by (simp_all add: fourEntries_def)
  have p: "startsWith ''text-a.txt'' ''text-''" "startsWith ''webcam-b.webm'' ''webcam-''"
    "startsWith ''screen-c.webm'' ''screen-''"
    by (simp_all add: startsWith_def)
  from handleLoadFile_exclusive [OF f e(1)] handleLoadFile_exclusive [OF f e(2)]
    handleLoadFile_exclusive [OF f e(3)] p
  show ?thesis by (simp add: Let_def)
qed

text \<open>
  C7, as the code has it. The handler resolves the name before it looks at the prefix.
  So a name that resolves to a file and has none of the three prefixes fails with
  \<open>Unknown file type\<close>, and a name that does not resolve fails with the host's
  not-found message whatever its prefix; in both cases no active-entry reference
  and no transient companion changes.
\<close>

theorem handleLoadFile_failures:
  assumes "faults w (calls w) = None" and "faults w (Suc (calls w)) = None"
  shows "(let w' = handleLoadFile fileName w in
          ((\<exists>bs. map_of (opfs w) fileName = Some (FileEntry bs)) \<and>
           \<not> startsWith fileName ''text-'' \<and> \<not> startsWith fileName ''webcam-'' \<and>
           \<not> startsWith fileName ''screen-''
             \<longrightarrow> error w' = ''Unknown file type: '' @ fileName) \<and>
          (map_of (opfs w) fileName = None
             \<longrightarrow> error w' = ''Could not load file: '' @ message NotFoundError) \<and>
          (map_of (opfs w) fileName = None \<or>
           (\<not> startsWith fileName ''text-'' \<and> \<not> startsWith fileName ''webcam-'' \<and>
            \<not> startsWith fileName ''screen-'')
             \<longrightarrow> activeTextFileHandle w' = activeTextFileHandle w \<and>
                 fileContent w' = fileContent w \<and>
                 activeWebcamFileHandle w' = activeWebcamFileHandle w \<and>
                 webcamPlaybackUrl w' = webcamPlaybackUrl w \<and>
                 activeScreenFileHandle w' = activeScreenFileHandle w \<and>
                 screenPlaybackUrl w' = screenPlaybackUrl w \<and>
                 opfs w' = opfs w))"
  using assms
  by (auto simp: handleLoadFile_def clearMessages_def andThen_def getDirectory_def
      getFileHandle_def hostcall_def Let_def split: option.splits entry.splits)

theorem handleLoadFile_failures_witness:
  "error (handleLoadFile ''unknown-xyz'' fourEntries) = ''Unknown file type: unknown-xyz'' \<and>
   activeTextFileHandle (handleLoadFile ''unknown-xyz'' fourEntries) = Some (FileHandle ''text-a.txt'') \<and>
   fileContent (handleLoadFile ''unknown-xyz'' fourEntries) = ''hi'' \<and>
   error (handleLoadFile ''text-gone.txt'' fourEntries)
     = ''Could not load file: '' @ message NotFoundError \<and>
   activeWebcamFileHandle (handleLoadFile ''text-gone.txt'' fourEntries)
     = Some (FileHandle ''webcam-b.webm'')"
proof -
  have f: "faults fourEntries (calls fourEntries) = None"
    "faults fourEntries (Suc (calls fourEntries)) = None"
    by (simp_all add: fourEntries_def initialState_def)
  have e: "\<exists>bs. map_of (opfs fourEntries) ''unknown-xyz'' = Some (FileEntry bs)"
    "map_of (opfs fourEntries) ''text-gone.txt'' = None"
    by (simp_all add: fourEntries_def)
  have p: "\<not> startsWith ''unknown-xyz'' ''text-''" "\<not> startsWith ''unknown-xyz'' ''webcam-''"
    "\<not> startsWith ''unknown-xyz'' ''screen-''"
    by (simp_all add: startsWith_def)
  have s: "activeTextFileHandle fourEntries = Some (FileHandle ''text-a.txt'')"
    "fileContent fourEntries = ''hi''"
    "activeWebcamFileHandle fourEntries = Some (FileHandle ''webcam-b.webm'')"
    by (simp_all add: fourEntries_def)
  from handleLoadFile_failures [OF f, of "''unknown-xyz''"]
    handleLoadFile_failures [OF f, of "''text-gone.txt''"] e p s
  show ?thesis by (simp add: Let_def)
qed

text \<open>
  C7 as stated fails: \<open>unknown-xyz\<close> has none of the three prefixes, and loading it
  from an empty storage fails with the not-found message, not with
  \<open>Unknown file type: unknown-xyz\<close>.
\<close>

theorem handleLoadFile_unknown_prefix_not_found:
  "\<not> startsWith ''unknown-xyz'' ''text-'' \<and> \<not> startsWith ''unknown-xyz'' ''webcam-'' \<and>
   \<not> startsWith ''unknown-xyz'' ''screen-'' \<and>
   error (handleLoadFile ''unknown-xyz'' initialState)
     = ''Could not load file: A requested file or directory could not be found at the time an operation was processed.'' \<and>
   error (handleLoadFile ''unknown-xyz'' initialState) \<noteq> ''Unknown file type: unknown-xyz''"
  by (simp add: startsWith_def handleLoadFile_def clearMessages_def andThen_def
      getDirectory_def getFileHandle_def hostcall_def Let_def initialState_def
      NotFoundError_def)

section \<open>Startup\<close>

lemmas host_defs = hostcall_def andThen_def getDirectory_def getFileHandle_def createWritable_def
  writable_write_def writable_close_def writable_abort_def removeEntry_def values_root_def
  getFile_def text_of_def readerRead_def getUserMedia_def getDisplayMedia_def stopTracks_def
  newMediaRecorder_def recorderStart_def recorderStop_def persisted_def persist_def createFile_def

lemma toString_digit: "n < 10 \<Longrightarrow> toString n = [digit n]"
  by (simp add: toString.simps)

text \<open>
  What the probe does when the persistence request is refused, that is, when the
  storage is not persistent and \<open>persist()\<close> resolves to \<open>false\<close>, on a host that
  rejects no call: the component marks itself supported and performs the initial
  listing, and the error slot is left as it was (empty at startup); the storage stays
  non-persistent. The four host calls made are \<open>persisted\<close>, \<open>persist\<close>,
  \<open>getDirectory\<close> and the enumeration of the root. The refusal makes no difference
  but to the persistence flag: the state reached is the one a granting user agent
  gives, with the flag off.
\<close>

lemma checkSupportAndLoad_grant_refused:
  assumes "hasStorage nav" and "hasGetDirectory nav" and "hasMediaDevices nav"
    and "hasMediaRecorder nav"
    and "\<not> persistedStorage w" and "\<not> persistGranted nav"
    and "\<forall>k. faults w k = None"
  shows "(let w' = checkSupportAndLoad nav w in
          isSupported w' \<and>
          fileList w' = map fst (filter (\<lambda>(n, e). kind e = ''file'') (opfs w)) \<and>
          error w' = error w \<and>
          \<not> persistedStorage w' \<and>
          calls w' = calls w + 4 \<and>
          w' = (checkSupportAndLoad (nav\<lparr>persistGranted := True\<rparr>) w)\<lparr>persistedStorage := False\<rparr>)"
  using assms
  by (simp add: checkSupportAndLoad_def handleListFiles_def persisted_def persist_def
      andThen_def getDirectory_def values_root_def hostcall_def Let_def)

text \<open>
  A request whose promise the host rejects is another matter. The two persistence
  calls are awaited outside any \<open>try\<close>, so the probe ends at the rejected call: the
  state is the one before the probe but for the call counter. In particular
  \<open>isSupported\<close> keeps its value, \<open>False\<close> at startup, and nothing is listed.
\<close>

lemma checkSupportAndLoad_persisted_rejected:
  assumes "hasStorage nav" and "hasGetDirectory nav" and "hasMediaDevices nav"
    and "hasMediaRecorder nav"
    and "faults w (calls w) = Some e"
  shows "checkSupportAndLoad nav w = w\<lparr>calls := calls w + 1\<rparr>"
  using assms
  by (simp add: checkSupportAndLoad_def persisted_def hostcall_def)

lemma checkSupportAndLoad_persist_rejected:
  assumes "hasStorage nav" and "hasGetDirectory nav" and "hasMediaDevices nav"
    and "hasMediaRecorder nav"
    and "\<not> persistedStorage w"
    and "faults w (calls w) = None" and "faults w (Suc (calls w)) = Some e"
  shows "checkSupportAndLoad nav w = w\<lparr>calls := calls w + 2\<rparr>"
  using assms
  by (simp add: checkSupportAndLoad_def persisted_def persist_def andThen_def hostcall_def)

text \<open>
  C8 at startup, with all required capabilities present and two entries in the
  storage. When the user agent refuses the grant by resolving \<open>persist()\<close> to \<open>false\<close>,
  the component marks itself supported, lists both entries and shows no error. When
  the host rejects the promise of \<open>persist()\<close> instead, which is a failure of the same
  request, the probe ends after its second host call: the component is not marked
  supported and the listing is not performed, so this failure is fatal.
\<close>

theorem checkSupportAndLoad_rejected_grant_is_fatal:
  "hasStorage refusingBrowser \<and> hasGetDirectory refusingBrowser \<and>
   hasMediaDevices refusingBrowser \<and> hasMediaRecorder refusingBrowser \<and>
   isSupported (checkSupportAndLoad refusingBrowser atStartup) \<and>
   fileList (checkSupportAndLoad refusingBrowser atStartup) = [''text-a.txt'', ''webcam-b.webm''] \<and>
   error (checkSupportAndLoad refusingBrowser atStartup) = '''' \<and>
   calls (checkSupportAndLoad refusingBrowser atStartup) = 4 \<and>
   \<not> isSupported (checkSupportAndLoad refusingBrowser (atStartup\<lparr>faults := rejectSecond\<rparr>)) \<and>
   fileList (checkSupportAndLoad refusingBrowser (atStartup\<lparr>faults := rejectSecond\<rparr>)) = [] \<and>
   calls (checkSupportAndLoad refusingBrowser (atStartup\<lparr>faults := rejectSecond\<rparr>)) = 2"
  by (simp add: checkSupportAndLoad_def handleListFiles_def persisted_def persist_def
      andThen_def getDirectory_def values_root_def hostcall_def Let_def refusingBrowser_def
      atStartup_def initialState_def rejectSecond_def toString_digit digit_def)

section \<open>Deleting by name\<close>

text \<open>
  What a delete that succeeds does: the name is gone from the storage root and from
  the refreshed listing; when the name was not the active entry of its category, no
  reference changes; when it was, the references and companions of all three
  categories are cleared.
\<close>

lemma handleDeleteFile_effect:
  assumes "\<forall>k. faults w k = None" and "map_of (opfs w) fileName = Some en"
  shows "fileName \<notin> set (fileList (handleDeleteFile fileName w))"
    and "map_of (opfs (handleDeleteFile fileName w)) fileName = None"
    and "\<not> ((startsWith fileName ''text-'' \<and> nameIs (activeTextFileHandle w) fileName) \<or>
            (startsWith fileName ''webcam-'' \<and> nameIs (activeWebcamFileHandle w) fileName) \<or>
            (startsWith fileName ''screen-'' \<and> nameIs (activeScreenFileHandle w) fileName))
         \<Longrightarrow> activeTextFileHandle (handleDeleteFile fileName w) = activeTextFileHandle w \<and>
             activeWebcamFileHandle (handleDeleteFile fileName w) = activeWebcamFileHandle w \<and>
             activeScreenFileHandle (handleDeleteFile fileName w) = activeScreenFileHandle w"
    and "(startsWith fileName ''text-'' \<and> nameIs (activeTextFileHandle w) fileName) \<or>
         (startsWith fileName ''webcam-'' \<and> nameIs (activeWebcamFileHandle w) fileName) \<or>
         (startsWith fileName ''screen-'' \<and> nameIs (activeScreenFileHandle w) fileName)
         \<Longrightarrow> activeTextFileHandle (handleDeleteFile fileName w) = None \<and>
             fileContent (handleDeleteFile fileName w) = '''' \<and>
             activeWebcamFileHandle (handleDeleteFile fileName w) = None \<and>
             webcamPlaybackUrl (handleDeleteFile fileName w) = None \<and>
             activeScreenFileHandle (handleDeleteFile fileName w) = None \<and>
             screenPlaybackUrl (handleDeleteFile fileName w) = None"
proof -
  let ?w1 = "(clearMessages w)\<lparr>isLoading := True\<rparr>"
  let ?rest = "filter (\<lambda>(k, e). k \<noteq> fileName) (opfs w)"
  have rm: "andThen getDirectory (\<lambda>root. removeEntry fileName) ?w1
              = (Inr (), ?w1\<lparr>opfs := ?rest, calls := Suc (Suc (calls w))\<rparr>)"
    using assms
    by (simp add: andThen_def getDirectory_def removeEntry_def hostcall_def clearMessages_def)
  have list: "fileList (handleListFiles v) = map fst (filter (\<lambda>(n, e). kind e = ''file'') (opfs v))"
    if "\<forall>k. faults v k = None" for v
    using that handleListFiles_ok(1) [of v] by simp
  show "fileName \<notin> set (fileList (handleDeleteFile fileName w))"
    using assms(1) unfolding handleDeleteFile_def Let_def rm
    by (auto simp: list clearMessages_def)
  show "map_of (opfs (handleDeleteFile fileName w)) fileName = None"
    unfolding handleDeleteFile_def Let_def rm
    by (simp add: handleListFiles_frame map_of_removed)
  show "activeTextFileHandle (handleDeleteFile fileName w) = activeTextFileHandle w \<and>
        activeWebcamFileHandle (handleDeleteFile fileName w) = activeWebcamFileHandle w \<and>
        activeScreenFileHandle (handleDeleteFile fileName w) = activeScreenFileHandle w"
    if "\<not> ((startsWith fileName ''text-'' \<and> nameIs (activeTextFileHandle w) fileName) \<or>
            (startsWith fileName ''webcam-'' \<and> nameIs (activeWebcamFileHandle w) fileName) \<or>
            (startsWith fileName ''screen-'' \<and> nameIs (activeScreenFileHandle w) fileName))"
    using that unfolding handleDeleteFile_def Let_def rm
    by (auto simp: handleListFiles_frame clearMessages_def)
  show "activeTextFileHandle (handleDeleteFile fileName w) = None \<and>
        fileContent (handleDeleteFile fileName w) = '''' \<and>
        activeWebcamFileHandle (handleDeleteFile fileName w) = None \<and>
        webcamPlaybackUrl (handleDeleteFile fileName w) = None \<and>
        activeScreenFileHandle (handleDeleteFile fileName w) = None \<and>
        screenPlaybackUrl (handleDeleteFile fileName w) = None"
    if "(startsWith fileName ''text-'' \<and> nameIs (activeTextFileHandle w) fileName) \<or>
        (startsWith fileName ''webcam-'' \<and> nameIs (activeWebcamFileHandle w) fileName) \<or>
        (startsWith fileName ''screen-'' \<and> nameIs (activeScreenFileHandle w) fileName)"
    using that unfolding handleDeleteFile_def Let_def rm
    by (auto simp: handleListFiles_frame clearMessages_def)
qed

text \<open>
  C6 at a state the handlers reach. After a webcam recording and the upload of a text
  file, both entries are active. Deleting the text file succeeds and the refreshed
  listing no longer has it; the text reference is cleared, and so is the webcam
  reference, although \<open>webcam-b.webm\<close> is still in the storage.
\<close>

theorem handleDeleteFile_clears_other_category:
  "handleFileSelect ''a'' (Some notesFile)
     (recordingSession Webcam ''b'' [[1, 2]] []
        (checkSupportAndLoad refusingBrowser initialState)) = Some twoActive \<and>
   activeTextFileHandle twoActive = Some (FileHandle ''text-a.txt'') \<and>
   activeWebcamFileHandle twoActive = Some (FileHandle ''webcam-b.webm'') \<and>
   error (handleDeleteFile ''text-a.txt'' twoActive) = '''' \<and>
   fileList (handleDeleteFile ''text-a.txt'' twoActive) = [''webcam-b.webm''] \<and>
   opfs (handleDeleteFile ''text-a.txt'' twoActive) = [(''webcam-b.webm'', FileEntry [1, 2])] \<and>
   activeTextFileHandle (handleDeleteFile ''text-a.txt'' twoActive) = None \<and>
   activeWebcamFileHandle (handleDeleteFile ''text-a.txt'' twoActive) = None"
proof -
  have reached: "handleFileSelect ''a'' (Some notesFile)
     (recordingSession Webcam ''b'' [[1, 2]] []
        (checkSupportAndLoad refusingBrowser initialState)) = Some twoActive"
    by (simp add: handleFileSelect_def handleFileSelectWith_def writeFile_def
        writeSubChunks.simps subarray_def CHUNK_SIZE_def notesFile_def recordingSession_def
        startRecording_def stopRecording_def ondataavailable_def onstop_def
        checkSupportAndLoad_def refusingBrowser_def handleListFiles_def clearMessages_def
        host_defs Let_def toString_digit digit_def initialState_def twoActive_def)
  have deleted: "error (handleDeleteFile ''text-a.txt'' twoActive) = '''' \<and>
     fileList (handleDeleteFile ''text-a.txt'' twoActive) = [''webcam-b.webm''] \<and>
     opfs (handleDeleteFile ''text-a.txt'' twoActive) = [(''webcam-b.webm'', FileEntry [1, 2])] \<and>
     activeTextFileHandle (handleDeleteFile ''text-a.txt'' twoActive) = None \<and>
     activeWebcamFileHandle (handleDeleteFile ''text-a.txt'' twoActive) = None"
    by (simp add: handleDeleteFile_def handleListFiles_def clearMessages_def nameIs_def
        startsWith_def host_defs Let_def toString_digit digit_def initialState_def
        twoActive_def)
  show ?thesis using reached deleted by (simp add: twoActive_def)
qed

section \<open>Recording: the slices of a session\<close>

text \<open>A slice of size zero makes no host call and changes nothing.\<close>

lemma ondataavailable_empty: "ondataavailable [] w = w"
  by (simp add: ondataavailable_def split: option.splits)

lemma ondataavailable_written:
  assumes "writableStreamRef w = Some wr" and "faults w (calls w) = None" and "d \<noteq> []"
  shows "ondataavailable d w =
           w\<lparr>writableStreamRef := Some (wr\<lparr>written := written wr @ [d]\<rparr>),
             writeLog := writeLog w @ [(target wr, d)],
             calls := Suc (calls w)\<rparr>"
  using assms by (simp add: ondataavailable_def writable_write_def hostcall_def)

lemma fold_ondataavailable:
  assumes "\<forall>k. faults w k = None" and "writableStreamRef w = Some wr"
  shows "fold ondataavailable slices w =
           w\<lparr>writableStreamRef := Some (wr\<lparr>written := written wr @ filter (\<lambda>s. s \<noteq> []) slices\<rparr>),
             writeLog := writeLog w @ map (Pair (target wr)) (filter (\<lambda>s. s \<noteq> []) slices),
             calls := calls w + length (filter (\<lambda>s. s \<noteq> []) slices)\<rparr>"
  using assms
proof (induction slices arbitrary: w wr)
  case Nil
  then show ?case by simp
next
  case (Cons d slices)
  show ?case
  proof (cases "d = []")
    case True
    with Cons show ?thesis by (simp add: ondataavailable_empty)
  next
    case False
    let ?wr = "wr\<lparr>written := written wr @ [d]\<rparr>"
    let ?w = "w\<lparr>writableStreamRef := Some ?wr, writeLog := writeLog w @ [(target wr, d)],
               calls := Suc (calls w)\<rparr>"
    have step: "ondataavailable d w = ?w"
      using ondataavailable_written [OF Cons.prems(2) _ False] Cons.prems(1) by simp
    have "fold ondataavailable slices ?w =
            ?w\<lparr>writableStreamRef := Some (?wr\<lparr>written := written ?wr @ filter (\<lambda>s. s \<noteq> []) slices\<rparr>),
               writeLog := writeLog ?w @ map (Pair (target ?wr)) (filter (\<lambda>s. s \<noteq> []) slices),
               calls := calls ?w + length (filter (\<lambda>s. s \<noteq> []) slices)\<rparr>"
      using Cons.prems(1) by (intro Cons.IH) simp_all
    with step False show ?thesis by simp
  qed
qed

text \<open>
  Whatever the host answers, a slice of size greater than zero makes one host call,
  the write, and the write target stays open.
\<close>

lemma ondataavailable_calls:
  assumes "writableStreamRef w = Some wr"
  shows "\<exists>wr'. writableStreamRef (ondataavailable d w) = Some wr'"
    and "calls (ondataavailable d w) = calls w + (if d = [] then 0 else 1)"
  using assms
  by (auto simp: ondataavailable_def writable_write_def hostcall_def split: option.splits)

lemma fold_ondataavailable_calls:
  assumes "writableStreamRef w = Some wr"
  shows "calls (fold ondataavailable slices w) = calls w + length (filter (\<lambda>s. s \<noteq> []) slices)"
  using assms
proof (induction slices arbitrary: w wr)
  case Nil
  then show ?case by simp
next
  case (Cons d slices)
  from ondataavailable_calls(1) [OF Cons.prems, of d] obtain wr' where
    "writableStreamRef (ondataavailable d w) = Some wr'" by blast
  from Cons.IH [OF this] ondataavailable_calls(2) [OF Cons.prems, of d]
  show ?case by simp
qed

text \<open>
  A start request that the host serves: the session is open on the new entry, with
  an empty write target.
\<close>

lemma startRecording_ok:
  assumes "\<not> isRecording w" and "\<forall>k. faults w k = None"
    and "map_of (opfs w) (typeName ty @ ''-'' @ uuid @ ''.webm'') \<noteq> Some DirectoryEntry"
  shows "writableStreamRef (startRecording ty uuid w)
           = Some \<lparr>target = typeName ty @ ''-'' @ uuid @ ''.webm'', written = []\<rparr>"
    and "\<exists>s. mediaRecorderRef (startRecording ty uuid w) = Some \<lparr>recStream = s, recType = ty\<rparr>"
    and "isRecording (startRecording ty uuid w)"
    and "currentFileHandleRef (startRecording ty uuid w)
           = Some (FileHandle (typeName ty @ ''-'' @ uuid @ ''.webm''))"
    and "faults (startRecording ty uuid w) = faults w"
    and "writeLog (startRecording ty uuid w) = writeLog w"
proof -
  have "writableStreamRef (startRecording ty uuid w)
           = Some \<lparr>target = typeName ty @ ''-'' @ uuid @ ''.webm'', written = []\<rparr> \<and>
        (\<exists>s. mediaRecorderRef (startRecording ty uuid w) = Some \<lparr>recStream = s, recType = ty\<rparr>) \<and>
        isRecording (startRecording ty uuid w) \<and>
        currentFileHandleRef (startRecording ty uuid w)
           = Some (FileHandle (typeName ty @ ''-'' @ uuid @ ''.webm'')) \<and>
        faults (startRecording ty uuid w) = faults w \<and>
        writeLog (startRecording ty uuid w) = writeLog w"
    using assms
    by (cases ty)
      (auto simp: startRecording_def clearMessages_def host_defs Let_def
        split: option.splits entry.splits)
  then show "writableStreamRef (startRecording ty uuid w)
           = Some \<lparr>target = typeName ty @ ''-'' @ uuid @ ''.webm'', written = []\<rparr>"
    and "\<exists>s. mediaRecorderRef (startRecording ty uuid w) = Some \<lparr>recStream = s, recType = ty\<rparr>"
    and "isRecording (startRecording ty uuid w)"
    and "currentFileHandleRef (startRecording ty uuid w)
           = Some (FileHandle (typeName ty @ ''-'' @ uuid @ ''.webm''))"
    and "faults (startRecording ty uuid w) = faults w"
    and "writeLog (startRecording ty uuid w) = writeLog w"
    by blast+
qed

text \<open>
  A stop request that the host serves: the last slice is written when it is not
  empty, and the write target is committed to its entry.
\<close>

lemma stopRecording_ok:
  assumes "\<forall>k. faults w k = None" and "isRecording w"
    and "mediaRecorderRef w = Some recorder" and "writableStreamRef w = Some wr"
  shows "opfs (stopRecording final w)
           = store (target wr) (concat (written wr @ [final])) (opfs w)"
    and "writeLog (stopRecording final w)
           = writeLog w @ map (Pair (target wr)) (filter (\<lambda>s. s \<noteq> []) [final])"
  using assms
  by (simp_all add: stopRecording_def ondataavailable_def onstop_def recorderStop_def
      writable_write_def writable_close_def stopTracks_def hostcall_def Let_def
      handleListFiles_frame split: option.splits)

text \<open>
  C2. In a recording session that the host serves without rejecting a call, the
  slices of size greater than zero, and only they, are written to the session's
  write target, each one when it arrives and in the order of arrival: the writes the
  host receives during the session are the non-empty slices in order, all to the
  session's entry. The stored entry is their concatenation, so its size is the sum of
  their sizes. A slice of size zero makes no write call: it leaves the whole state,
  the host's call counter included, as it is; and whatever the host answers, the
  slices delivered to an open write target make as many host calls as there are
  slices of size greater than zero. The slices of a session are those the recorder
  delivers while recording and the one it delivers on \<open>stop\<close>.
\<close>

theorem recordingSession_writes_nonempty_slices:
  assumes "\<not> isRecording w" and "\<forall>k. faults w k = None"
    and "map_of (opfs w) (typeName ty @ ''-'' @ uuid @ ''.webm'') \<noteq> Some DirectoryEntry"
  shows "(let n = typeName ty @ ''-'' @ uuid @ ''.webm'';
              delivered = slices @ [final];
              w' = recordingSession ty uuid slices final w in
          writeLog w' = writeLog w @ map (Pair n) (filter (\<lambda>s. length s > 0) delivered) \<and>
          map_of (opfs w') n = Some (FileEntry (concat (filter (\<lambda>s. length s > 0) delivered))) \<and>
          length (concat (filter (\<lambda>s. length s > 0) delivered))
            = sum_list (map length (filter (\<lambda>s. length s > 0) delivered)) \<and>
          (\<forall>v. ondataavailable [] v = v) \<and>
          (\<forall>v wr. writableStreamRef v = Some wr \<longrightarrow>
             calls (fold ondataavailable slices v)
               = calls v + length (filter (\<lambda>s. length s > 0) slices)) \<and>
          (\<forall>v wr d. writableStreamRef v = Some wr \<and> faults v (calls v) = None \<and> length d > 0 \<longrightarrow>
             writeLog (ondataavailable d v) = writeLog v @ [(target wr, d)] \<and>
             calls (ondataavailable d v) = Suc (calls v)))"
proof -
  let ?n = "typeName ty @ ''-'' @ uuid @ ''.webm''"
  let ?s1 = "startRecording ty uuid w"
  let ?wr1 = "\<lparr>target = ?n, written = []\<rparr>"
  let ?s2 = "fold ondataavailable slices ?s1"
  let ?wr2 = "?wr1\<lparr>written := written ?wr1 @ filter (\<lambda>s. s \<noteq> []) slices\<rparr>"
  note s1 = startRecording_ok [OF assms]
  have nf1: "\<forall>k. faults ?s1 k = None" using s1(5) assms(2) by simp
  have s2: "?s2 = ?s1\<lparr>writableStreamRef := Some ?wr2,
                      writeLog := writeLog ?s1 @ map (Pair (target ?wr1)) (filter (\<lambda>s. s \<noteq> []) slices),
                      calls := calls ?s1 + length (filter (\<lambda>s. s \<noteq> []) slices)\<rparr>"
    by (rule fold_ondataavailable [OF nf1 s1(1)])
  obtain recorder where rec: "mediaRecorderRef ?s1 = Some recorder" using s1(2) by blast
  have nf2: "\<forall>k. faults ?s2 k = None" by (subst s2) (simp add: nf1)
  have r2: "isRecording ?s2" "mediaRecorderRef ?s2 = Some recorder"
    "writableStreamRef ?s2 = Some ?wr2"
    by (subst s2, simp add: s1(3) rec)+
  have log2: "writeLog ?s2 = writeLog w @ map (Pair ?n) (filter (\<lambda>s. s \<noteq> []) slices)"
    by (subst s2) (simp add: s1(6))
  note stop = stopRecording_ok [OF nf2 r2, of final]
  have cc: "concat (filter (\<lambda>s. s \<noteq> []) xs) = concat xs" for xs :: "bytes list"
    by (induction xs) auto
  have log: "writeLog (recordingSession ty uuid slices final w)
               = writeLog w @ map (Pair ?n) (filter (\<lambda>s. s \<noteq> []) (slices @ [final]))"
    unfolding recordingSession_def stop(2) log2 by simp
  have stored: "map_of (opfs (recordingSession ty uuid slices final w)) ?n
                  = Some (FileEntry (concat (filter (\<lambda>s. s \<noteq> []) (slices @ [final]))))"
    unfolding recordingSession_def stop(1) by (simp add: map_of_store_same cc)
  have size: "length (concat xs) = sum_list (map length xs)" for xs :: "bytes list"
    by (induction xs) auto
  have each: "writeLog (ondataavailable d v) = writeLog v @ [(target wr, d)] \<and>
              calls (ondataavailable d v) = Suc (calls v)"
    if "writableStreamRef v = Some wr" "faults v (calls v) = None" "d \<noteq> []" for v wr d
    using ondataavailable_written [OF that] by simp
  have count: "calls (fold ondataavailable slices v)
                 = calls v + length (filter (\<lambda>s. s \<noteq> []) slices)"
    if "writableStreamRef v = Some wr" for v wr
    using that by (rule fold_ondataavailable_calls)
  show ?thesis
    using log stored size each count by (simp add: Let_def ondataavailable_empty)
qed

theorem recordingSession_writes_nonempty_slices_witness:
  "map_of (opfs (recordingSession Webcam ''u1''
             [replicate 1000 7, [], replicate 2000 9] [] initialState)) ''webcam-u1.webm''
     = Some (FileEntry (replicate 1000 7 @ replicate 2000 9)) \<and>
   length (replicate 1000 (7 :: byte) @ replicate 2000 9) = 3000 \<and>
   writeLog (recordingSession Webcam ''u1''
             [replicate 1000 7, [], replicate 2000 9] [] initialState)
     = [(''webcam-u1.webm'', replicate 1000 7), (''webcam-u1.webm'', replicate 2000 9)] \<and>
   writeLog (ondataavailable [1, 2] (startRecording Webcam ''u1'' initialState))
     = [(''webcam-u1.webm'', [1, 2])]"
proof -
  have h: "\<not> isRecording initialState" "\<forall>k. faults initialState k = None"
    "map_of (opfs initialState) (typeName Webcam @ ''-'' @ ''u1'' @ ''.webm'') \<noteq> Some DirectoryEntry"
    by (simp_all add: initialState_def)
  have open1: "writableStreamRef (startRecording Webcam ''u1'' initialState)
                 = Some \<lparr>target = ''webcam-u1.webm'', written = []\<rparr> \<and>
               faults (startRecording Webcam ''u1'' initialState)
                 (calls (startRecording Webcam ''u1'' initialState)) = None \<and>
               length [1, 2 :: byte] > 0 \<and>
               writeLog (startRecording Webcam ''u1'' initialState) = []"
    by (simp add: startRecording_def clearMessages_def host_defs Let_def initialState_def)
  from recordingSession_writes_nonempty_slices
         [OF h, of "[replicate 1000 7, [], replicate 2000 9]" "[]"]
       recordingSession_writes_nonempty_slices [OF h, of "[]" "[]"] open1
  show ?thesis by (simp add: Let_def initialState_def)
qed

section \<open>Text files: the chunked write\<close>

text \<open>With a positive sub-chunk size the inner loop ends.\<close>

lemma writeSubChunks_returns:
  "0 < cs \<Longrightarrow> \<exists>r. writeSubChunks cs v i wr w = Some r"
proof (induction "length v - i" arbitrary: i wr w rule: less_induct)
  case less
  show ?case
  proof (cases "i < length v")
    case False
    then show ?thesis by (subst writeSubChunks.simps) simp
  next
    case True
    obtain r w' where wr: "writable_write wr (subarray v i (i + cs)) w = (r, w')"
      by (cases "writable_write wr (subarray v i (i + cs)) w")
    show ?thesis
    proof (cases r)
      case (Inl e)
      with True wr show ?thesis by (subst writeSubChunks.simps) simp
    next
      case (Inr wr')
      from less.prems True have "length v - (i + cs) < length v - i" by arith
      from less.hyps [OF this less.prems, of wr' w'] obtain r' where
        "writeSubChunks cs v (i + cs) wr' w' = Some r'" by blast
      moreover have "writeSubChunks cs v i wr w = writeSubChunks cs v (i + cs) wr' w'"
        using True wr Inr by (subst writeSubChunks.simps) simp
      ultimately show ?thesis by metis
    qed
  qed
qed

lemma subarray_step:
  "i < length v \<Longrightarrow> 0 < cs \<Longrightarrow> subarray v i (i + cs) @ drop (i + cs) v = drop i v"
  by (simp add: subarray_def add.commute [of i cs] flip: drop_drop)

lemma length_subarray: "length (subarray v i (i + cs)) \<le> cs"
  by (simp add: subarray_def)

text \<open>
  What the inner loop has done when it ends: it has written the chunks \<open>cks\<close>, each of
  at most \<open>cs\<close> bytes, and changed nothing but the write log and the call counter. When
  it ends without an exception the chunks make up \<open>value\<close> from \<open>i\<close> on; it ends so when
  the host rejects nothing.
\<close>

lemma writeSubChunks_result:
  assumes "0 < cs" and "writeSubChunks cs v i wr w = Some (r, wr', w')"
  shows "\<exists>cks. wr' = wr\<lparr>written := written wr @ cks\<rparr> \<and>
               w' = w\<lparr>writeLog := writeLog w @ map (Pair (target wr)) cks, calls := calls w'\<rparr> \<and>
               (\<forall>c\<in>set cks. length c \<le> cs) \<and>
               (isl r \<or> concat cks = drop i v) \<and>
               ((\<forall>n. faults w n = None) \<longrightarrow> \<not> isl r)"
  using assms
proof (induction "length v - i" arbitrary: i wr w rule: less_induct)
  case less
  show ?case
  proof (cases "i < length v")
    case False
    with less.prems(2) have "r = Inr ()" "wr' = wr" "w' = w"
      by (subst (asm) writeSubChunks.simps, simp)+
    with False show ?thesis by (intro exI [of _ "[]"]) simp
  next
    case True
    obtain r1 w1 where wr: "writable_write wr (subarray v i (i + cs)) w = (r1, w1)"
      by (cases "writable_write wr (subarray v i (i + cs)) w")
    from writable_write_cases [OF wr] show ?thesis
    proof (elim disjE exE conjE)
      fix e assume e: "r1 = Inl e" "faults w (calls w) = Some e" "w1 = w\<lparr>calls := Suc (calls w)\<rparr>"
      with less.prems(2) True wr have "r = Inl e" "wr' = wr" "w' = w1"
        by (subst (asm) writeSubChunks.simps, simp)+
      with e show ?thesis by (intro exI [of _ "[]"]) auto
    next
      let ?c = "subarray v i (i + cs)"
      let ?wr1 = "wr\<lparr>written := written wr @ [?c]\<rparr>"
      assume ok: "r1 = Inr ?wr1" "faults w (calls w) = None"
        "w1 = w\<lparr>writeLog := writeLog w @ [(target wr, ?c)], calls := Suc (calls w)\<rparr>"
      with less.prems(2) True wr have rec: "writeSubChunks cs v (i + cs) ?wr1 w1 = Some (r, wr', w')"
        by (subst (asm) writeSubChunks.simps) simp
      from less.prems True have "length v - (i + cs) < length v - i" by arith
      from less.hyps [OF this less.prems(1) rec] obtain cks where
        cks: "wr' = ?wr1\<lparr>written := written ?wr1 @ cks\<rparr>"
          "w' = w1\<lparr>writeLog := writeLog w1 @ map (Pair (target ?wr1)) cks, calls := calls w'\<rparr>"
          "\<forall>c\<in>set cks. length c \<le> cs"
          "isl r \<or> concat cks = drop (i + cs) v"
          "(\<forall>n. faults w1 n = None) \<longrightarrow> \<not> isl r"
        by blast
      show ?thesis
      proof (intro exI [of _ "?c # cks"] conjI)
        show "wr' = wr\<lparr>written := written wr @ ?c # cks\<rparr>" using cks(1) by simp
        show "w' = w\<lparr>writeLog := writeLog w @ map (Pair (target wr)) (?c # cks), calls := calls w'\<rparr>"
          using cks(2) ok(3) by simp
        show "\<forall>c\<in>set (?c # cks). length c \<le> cs" using cks(3) length_subarray by simp
        show "isl r \<or> concat (?c # cks) = drop i v"
          using cks(4) subarray_step [OF True less.prems(1)] by auto
        show "(\<forall>n. faults w n = None) \<longrightarrow> \<not> isl r" using cks(5) ok(3) by simp
      qed
    qed
  qed
qed

lemma readLoop_returns:
  "0 < cs \<Longrightarrow> \<exists>r. readLoop cs vs wr w = Some r"
proof (induction vs arbitrary: wr w)
  case Nil
  show ?case by (simp split: prod.splits sum.splits)
next
  case (Cons v vs)
  obtain r0 w0 where rd: "readerRead w = (r0, w0)" by (cases "readerRead w")
  show ?case
  proof (cases r0)
    case (Inl e)
    with rd show ?thesis by simp
  next
    case (Inr u)
    from writeSubChunks_returns [OF Cons.prems, of v 0 wr w0] obtain r1 wr1 w1 where
      sub: "writeSubChunks cs v 0 wr w0 = Some (r1, wr1, w1)" by (metis prod_cases3)
    show ?thesis
    proof (cases r1)
      case (Inl e)
      with rd Inr sub show ?thesis by simp
    next
      case Inr1: (Inr u1)
      from Cons.IH [OF Cons.prems, of wr1 w1] rd Inr sub Inr1 show ?thesis by simp
    qed
  qed
qed

lemma readLoop_result:
  assumes "0 < cs" and "readLoop cs vs wr w = Some (r, wr', w')"
  shows "\<exists>cks. wr' = wr\<lparr>written := written wr @ cks\<rparr> \<and>
               w' = w\<lparr>writeLog := writeLog w @ map (Pair (target wr)) cks, calls := calls w'\<rparr> \<and>
               (\<forall>c\<in>set cks. length c \<le> cs) \<and>
               (isl r \<or> concat cks = concat vs) \<and>
               ((\<forall>n. faults w n = None) \<longrightarrow> \<not> isl r)"
  using assms
proof (induction vs arbitrary: wr w)
  case Nil
  obtain r0 w0 where rd: "readerRead w = (r0, w0)" by (cases "readerRead w")
  note rc = readerRead_cases [OF rd]
  from Nil(2) rd have res: "wr' = wr" "w' = w0" "isl r = isl r0"
    by (auto split: sum.splits)
  show ?case
    using res rc by (intro exI [of _ "[]"]) auto
next
  case (Cons v vs)
  obtain r0 w0 where rd: "readerRead w = (r0, w0)" by (cases "readerRead w")
  note rc = readerRead_cases [OF rd]
  show ?case
  proof (cases r0)
    case (Inl e)
    with Cons.prems(2) rd have res: "wr' = wr" "w' = w0" "isl r" by auto
    show ?thesis
      using res rc Inl by (intro exI [of _ "[]"]) auto
  next
    case (Inr u)
    from writeSubChunks_returns [OF Cons.prems(1), of v 0 wr w0] obtain r1 wr1 w1 where
      sub: "writeSubChunks cs v 0 wr w0 = Some (r1, wr1, w1)" by (metis prod_cases3)
    from writeSubChunks_result [OF Cons.prems(1) sub] obtain cks1 where
      c1: "wr1 = wr\<lparr>written := written wr @ cks1\<rparr>"
        "w1 = w0\<lparr>writeLog := writeLog w0 @ map (Pair (target wr)) cks1, calls := calls w1\<rparr>"
        "\<forall>c\<in>set cks1. length c \<le> cs"
        "isl r1 \<or> concat cks1 = drop 0 v"
        "(\<forall>n. faults w0 n = None) \<longrightarrow> \<not> isl r1"
      by blast
    have w1: "w1 = w\<lparr>writeLog := writeLog w @ map (Pair (target wr)) cks1, calls := calls w1\<rparr>"
      using c1(2) rc by simp
    have f0: "(\<forall>n. faults w n = None) \<longrightarrow> (\<forall>n. faults w0 n = None)"
      using rc by simp
    show ?thesis
    proof (cases r1)
      case (Inl e)
      with Cons.prems(2) rd Inr sub have res: "wr' = wr1" "w' = w1" "isl r" by auto
      show ?thesis
        using res c1 w1 Inl f0 by (intro exI [of _ cks1]) auto
    next
      case Inr1: (Inr u1)
      with Cons.prems(2) rd Inr sub have rest: "readLoop cs vs wr1 w1 = Some (r, wr', w')"
        by simp
      from Cons.IH [OF Cons.prems(1) rest] obtain cks2 where
        c2: "wr' = wr1\<lparr>written := written wr1 @ cks2\<rparr>"
          "w' = w1\<lparr>writeLog := writeLog w1 @ map (Pair (target wr1)) cks2, calls := calls w'\<rparr>"
          "\<forall>c\<in>set cks2. length c \<le> cs"
          "isl r \<or> concat cks2 = concat vs"
          "(\<forall>n. faults w1 n = None) \<longrightarrow> \<not> isl r"
        by blast
      have f1: "(\<forall>n. faults w n = None) \<longrightarrow> (\<forall>n. faults w1 n = None)"
        by (subst w1) simp
      show ?thesis
      proof (intro exI [of _ "cks1 @ cks2"] conjI)
        show "wr' = wr\<lparr>written := written wr @ cks1 @ cks2\<rparr>" using c2(1) c1(1) by simp
        have "w' = (w\<lparr>writeLog := writeLog w @ map (Pair (target wr)) cks1, calls := calls w1\<rparr>)
                 \<lparr>writeLog := writeLog w1 @ map (Pair (target wr1)) cks2, calls := calls w'\<rparr>"
          using c2(2) w1 by simp
        moreover have "writeLog w1 = writeLog w @ map (Pair (target wr)) cks1"
          by (subst w1) simp
        moreover have "target wr1 = target wr" using c1(1) by simp
        ultimately show "w' = w\<lparr>writeLog := writeLog w @ map (Pair (target wr)) (cks1 @ cks2),
                                calls := calls w'\<rparr>"
          by simp
        show "\<forall>c\<in>set (cks1 @ cks2). length c \<le> cs" using c1(3) c2(3) by auto
        show "isl r \<or> concat (cks1 @ cks2) = concat (v # vs)"
          using c1(4) c2(4) Inr1 by auto
        show "(\<forall>n. faults w n = None) \<longrightarrow> \<not> isl r" using c2(5) f1 by blast
      qed
    qed
  qed
qed

lemma writeFile_returns:
  "0 < cs \<Longrightarrow> \<exists>r. writeFile cs file wr w = Some r"
  using readLoop_returns [of cs "chunks file" wr w]
  by (auto simp: writeFile_def split: prod.splits sum.splits)

text \<open>
  What the write has done when it ends: with an exception, nothing but the write log
  and the call counter has changed; without one, the chunks written make up the bytes
  of the file and are committed to the entry.
\<close>

lemma writeFile_result:
  assumes "0 < cs" and "writeFile cs file wr w = Some (r, wr', w')"
  shows "\<exists>cks. (\<forall>c\<in>set cks. length c \<le> cs) \<and>
           (isl r \<longrightarrow>
              w' = w\<lparr>writeLog := writeLog w @ map (Pair (target wr)) cks, calls := calls w'\<rparr>) \<and>
           (\<not> isl r \<longrightarrow>
              concat cks = fileBytes file \<and>
              w' = w\<lparr>writeLog := writeLog w @ map (Pair (target wr)) cks,
                     opfs := store (target wr) (concat (written wr @ cks)) (opfs w),
                     calls := calls w'\<rparr>) \<and>
           ((\<forall>n. faults w n = None) \<longrightarrow> \<not> isl r)"
proof -
  from readLoop_returns [OF assms(1), of "chunks file" wr w] obtain r1 wr1 w1 where
    rl: "readLoop cs (chunks file) wr w = Some (r1, wr1, w1)" by (metis prod_cases3)
  from readLoop_result [OF assms(1) rl] obtain cks where
    c: "wr1 = wr\<lparr>written := written wr @ cks\<rparr>"
      "w1 = w\<lparr>writeLog := writeLog w @ map (Pair (target wr)) cks, calls := calls w1\<rparr>"
      "\<forall>c\<in>set cks. length c \<le> cs"
      "isl r1 \<or> concat cks = concat (chunks file)"
      "(\<forall>n. faults w n = None) \<longrightarrow> \<not> isl r1"
    by blast
  show ?thesis
  proof (cases r1)
    case (Inl e)
    with assms(2) rl have "isl r" "w' = w1" by (auto simp: writeFile_def)
    with c Inl show ?thesis by (intro exI [of _ cks]) auto
  next
    case (Inr u)
    obtain r2 w2 where cl: "writable_close wr1 w1 = (r2, w2)" by (cases "writable_close wr1 w1")
    have f1: "faults w1 = faults w" "calls w1 = calls w1" "opfs w1 = opfs w"
      "writeLog w1 = writeLog w @ map (Pair (target wr)) cks"
      by (subst c(2), simp)+
    from writable_close_cases [OF cl] show ?thesis
    proof (elim disjE exE conjE)
      fix e assume e: "r2 = Inl e" "faults w1 (calls w1) = Some e" "w2 = w1\<lparr>calls := Suc (calls w1)\<rparr>"
      with assms(2) rl Inr cl have res: "isl r" "w' = w2" by (auto simp: writeFile_def)
      define k where "k = calls w1"
      have w1k: "w1 = w\<lparr>writeLog := writeLog w @ map (Pair (target wr)) cks, calls := k\<rparr>"
        using c(2) k_def by simp
      have e2: "w2 = w\<lparr>writeLog := writeLog w @ map (Pair (target wr)) cks, calls := Suc k\<rparr>"
        using e(3) by (simp add: w1k)
      have "w2 = w\<lparr>writeLog := writeLog w @ map (Pair (target wr)) cks, calls := calls w2\<rparr>"
        by (subst (2) e2, subst e2) simp
      with res c(3) e(2) f1(1) show ?thesis by (intro exI [of _ cks]) auto
    next
      assume ok: "r2 = Inr ()" "faults w1 (calls w1) = None"
        "w2 = w1\<lparr>opfs := store (target wr1) (concat (written wr1)) (opfs w1),
                 calls := Suc (calls w1)\<rparr>"
      with assms(2) rl Inr cl have res: "\<not> isl r" "w' = w2" by (auto simp: writeFile_def)
      define k where "k = calls w1"
      have w1k: "w1 = w\<lparr>writeLog := writeLog w @ map (Pair (target wr)) cks, calls := k\<rparr>"
        using c(2) k_def by simp
      have e2: "w2 = w\<lparr>writeLog := writeLog w @ map (Pair (target wr)) cks,
                    opfs := store (target wr) (concat (written wr @ cks)) (opfs w),
                    calls := Suc k\<rparr>"
        using ok(3) c(1) by (simp add: w1k)
      have "w2 = w\<lparr>writeLog := writeLog w @ map (Pair (target wr)) cks,
                    opfs := store (target wr) (concat (written wr @ cks)) (opfs w),
                    calls := calls w2\<rparr>"
        by (subst (2) e2, subst e2) simp
      with res c(3,4) Inr show ?thesis
        by (intro exI [of _ cks]) (auto simp: fileBytes_def)
    qed
  qed
qed

lemma newWrites_append: "writeLog w' = writeLog w @ xs \<Longrightarrow> newWrites w w' = xs"
  by (simp add: newWrites_def)

lemma not_upload_failed:
  "\<not> startsWith '''' ''Upload failed: ''"
  "\<not> startsWith (''Could not list files: '' @ m) ''Upload failed: ''"
  by (simp_all add: startsWith_def)

text \<open>
  Every run of the upload handler that returns is of one of two kinds. Either the
  \<open>catch\<close> block ran: the error slot holds \<open>Upload failed: ...\<close> and no text entry is
  active. Or the \<open>try\<close> block came to its end: the new entry is active, it holds the
  bytes of the file, and the writes of the run, all to the new entry and each of at
  most \<open>cs\<close> bytes, make up those bytes. In both, no text is displayed. A host that
  rejects nothing gives the second kind, unless the name is taken by a directory.
\<close>

lemma handleFileSelectWith_result:
  assumes "0 < cs" and "handleFileSelectWith cs uuid (Some file) w = Some w'"
  shows "fileContent w' = ''''"
    and "faults w' = faults w"
    and "(activeTextFileHandle w' = None \<and> (\<exists>e. error w' = ''Upload failed: '' @ message e)) \<or>
         (activeTextFileHandle w' = Some (FileHandle (''text-'' @ uuid @ ''.txt'')) \<and>
          \<not> startsWith (error w') ''Upload failed: '' \<and>
          map_of (opfs w') (''text-'' @ uuid @ ''.txt'') = Some (FileEntry (fileBytes file)) \<and>
          concat (map snd (newWrites w w')) = fileBytes file \<and>
          list_all (\<lambda>(t, c). t = ''text-'' @ uuid @ ''.txt'' \<and> length c \<le> cs) (newWrites w w'))"
    and "\<forall>k. faults w k = None \<Longrightarrow>
         map_of (opfs w) (''text-'' @ uuid @ ''.txt'') \<noteq> Some DirectoryEntry \<Longrightarrow>
         activeTextFileHandle w' = Some (FileHandle (''text-'' @ uuid @ ''.txt''))"
proof -
  let ?n = "''text-'' @ uuid @ ''.txt''"
  let ?w0 = "(clearMessages w)\<lparr>isLoading := True, fileContent := '''', activeTextFileHandle := None\<rparr>"
  obtain r1 w1 where cf: "createFile ?n ?w0 = (r1, w1)" by (cases "createFile ?n ?w0")
  note c1 = createFile_result [OF cf]
  have f1: "fileContent w1 = ''''" "activeTextFileHandle w1 = None" "faults w1 = faults w"
    "writeLog w1 = writeLog w" "error w1 = ''''"
    by (subst c1(1), simp add: clearMessages_def)+
  have nf: "(\<forall>k. faults w k = None) \<longrightarrow> map_of (opfs w) ?n \<noteq> Some DirectoryEntry \<longrightarrow> \<not> isl r1"
    using c1(4) by (simp add: clearMessages_def)
  have goal: "fileContent w' = '''' \<and> faults w' = faults w \<and>
      ((activeTextFileHandle w' = None \<and> (\<exists>e. error w' = ''Upload failed: '' @ message e)) \<or>
       (activeTextFileHandle w' = Some (FileHandle ?n) \<and>
        \<not> startsWith (error w') ''Upload failed: '' \<and>
        map_of (opfs w') ?n = Some (FileEntry (fileBytes file)) \<and>
        concat (map snd (newWrites w w')) = fileBytes file \<and>
        list_all (\<lambda>(t, c). t = ?n \<and> length c \<le> cs) (newWrites w w'))) \<and>
      ((\<forall>k. faults w k = None) \<longrightarrow> map_of (opfs w) ?n \<noteq> Some DirectoryEntry \<longrightarrow>
         activeTextFileHandle w' = Some (FileHandle ?n))"
  proof (cases "isl r1")
    case True
    then obtain e where e: "r1 = Inl e" by (cases r1) auto
    with assms(2) cf have w': "w' = w1\<lparr>error := ''Upload failed: '' @ message e, isLoading := False\<rparr>"
      by (simp add: handleFileSelectWith_def Let_def)
    from w' f1 nf True show ?thesis by auto
  next
    case False
    let ?wr0 = "\<lparr>target = ?n, written = []\<rparr>"
    from c1(3) [OF False] have r1: "r1 = Inr (FileHandle ?n, ?wr0)" by simp
    from writeFile_returns [OF assms(1), of "file" ?wr0 w1] obtain r2 wr2 w2 where
      wf: "writeFile cs file ?wr0 w1 = Some (r2, wr2, w2)" by (metis prod_cases3)
    from writeFile_result [OF assms(1) wf] obtain cks where
      c2: "\<forall>c\<in>set cks. length c \<le> cs"
        "isl r2 \<longrightarrow> w2 = w1\<lparr>writeLog := writeLog w1 @ map (Pair ?n) cks, calls := calls w2\<rparr>"
        "\<not> isl r2 \<longrightarrow> concat cks = fileBytes file \<and>
           w2 = w1\<lparr>writeLog := writeLog w1 @ map (Pair ?n) cks,
                  opfs := store ?n (concat cks) (opfs w1), calls := calls w2\<rparr>"
        "(\<forall>k. faults w1 k = None) \<longrightarrow> \<not> isl r2"
      by auto
    show ?thesis
    proof (cases "isl r2")
      case True
      then obtain e where e: "r2 = Inl e" by (cases r2) auto
      with assms(2) cf r1 wf have w': "w' = (snd (writable_abort wr2
             (w2\<lparr>error := ''Upload failed: '' @ message e\<rparr>)))\<lparr>isLoading := False\<rparr>"
        by (simp add: handleFileSelectWith_def Let_def)
      from c2(2) True have w2: "w2 = w1\<lparr>writeLog := writeLog w1 @ map (Pair ?n) cks, calls := calls w2\<rparr>"
        by simp
      have f2: "fileContent w2 = ''''" "activeTextFileHandle w2 = None" "faults w2 = faults w"
        by (subst w2, simp add: f1)+
      from c2(4) True f1(3) have "\<not> (\<forall>k. faults w k = None)" by auto
      with w' f2 show ?thesis by (auto simp: writable_abort_frame)
    next
      case False
      then obtain u where u: "r2 = Inr u" by (cases r2) auto
      let ?w3 = "w2\<lparr>activeTextFileHandle := Some (FileHandle ?n),
                    success := ''File \"'' @ ?n @ ''\" uploaded and loaded successfully!''\<rparr>"
      from assms(2) cf r1 wf u have w': "w' = (handleListFiles ?w3)\<lparr>isLoading := False\<rparr>"
        by (simp add: handleFileSelectWith_def Let_def)
      from c2(3) False have cc: "concat cks = fileBytes file"
        and w2: "w2 = w1\<lparr>writeLog := writeLog w1 @ map (Pair ?n) cks,
                       opfs := store ?n (concat cks) (opfs w1), calls := calls w2\<rparr>"
        by blast+
      have f2: "fileContent w2 = ''''" "faults w2 = faults w" "error w2 = ''''"
        "writeLog w2 = writeLog w @ map (Pair ?n) cks"
        "opfs w2 = store ?n (concat cks) (opfs w1)"
        by (subst w2, simp add: f1)+
      have err: "\<not> startsWith (error (handleListFiles ?w3)) ''Upload failed: ''"
        using handleListFiles_error [of ?w3] f2(3) not_upload_failed by auto
      have nw: "newWrites w w' = map (Pair ?n) cks"
        by (rule newWrites_append) (simp add: w' handleListFiles_frame f2)
      have all: "list_all (\<lambda>(t, c). t = ?n \<and> length c \<le> cs) (map (Pair ?n) cks)"
        using c2(1) by (simp add: list_all_iff)
      have sn: "map snd (map (Pair ?n) cks) = cks" by (simp add: comp_def)
      have a1: "fileContent w' = ''''" "faults w' = faults w"
        "activeTextFileHandle w' = Some (FileHandle ?n)"
        by (simp_all add: w' handleListFiles_frame f2)
      have a2: "\<not> startsWith (error w') ''Upload failed: ''"
        using err by (simp add: w')
      have a3: "map_of (opfs w') ?n = Some (FileEntry (fileBytes file))"
        by (simp add: w' handleListFiles_frame f2 map_of_store_same cc)
      have a4: "concat (map snd (newWrites w w')) = fileBytes file"
        unfolding nw sn by (rule cc)
      have a5: "list_all (\<lambda>(t, c). t = ?n \<and> length c \<le> cs) (newWrites w w')"
        unfolding nw by (rule all)
      show ?thesis
        using a1 a2 a3 a4 a5 by blast
    qed
  qed
  from goal show "fileContent w' = ''''" by blast
  from goal show "faults w' = faults w" by blast
  from goal show "(activeTextFileHandle w' = None \<and> (\<exists>e. error w' = ''Upload failed: '' @ message e)) \<or>
         (activeTextFileHandle w' = Some (FileHandle (''text-'' @ uuid @ ''.txt'')) \<and>
          \<not> startsWith (error w') ''Upload failed: '' \<and>
          map_of (opfs w') (''text-'' @ uuid @ ''.txt'') = Some (FileEntry (fileBytes file)) \<and>
          concat (map snd (newWrites w w')) = fileBytes file \<and>
          list_all (\<lambda>(t, c). t = ''text-'' @ uuid @ ''.txt'' \<and> length c \<le> cs) (newWrites w w'))"
    by blast
  from goal show "activeTextFileHandle w' = Some (FileHandle (''text-'' @ uuid @ ''.txt''))"
    if "\<forall>k. faults w k = None" "map_of (opfs w) (''text-'' @ uuid @ ''.txt'') \<noteq> Some DirectoryEntry"
    using that by blast
qed

lemma handleFileSelectWith_returns:
  "0 < cs \<Longrightarrow> \<exists>w'. handleFileSelectWith cs uuid files w = Some w'"
proof (cases files)
  case None
  then show ?thesis by (simp add: handleFileSelectWith_def)
next
  case (Some f)
  assume cs: "0 < cs"
  let ?n = "''text-'' @ uuid @ ''.txt''"
  let ?w0 = "(clearMessages w)\<lparr>isLoading := True, fileContent := '''', activeTextFileHandle := None\<rparr>"
  obtain r1 w1 where cf: "createFile ?n ?w0 = (r1, w1)" by (cases "createFile ?n ?w0")
  show ?thesis
  proof (cases r1)
    case (Inl e)
    with Some cf show ?thesis by (simp add: handleFileSelectWith_def Let_def)
  next
    case (Inr p)
    obtain fh wr where p: "p = (fh, wr)" by (cases p)
    from writeFile_returns [OF cs, of f wr w1] obtain r2 wr2 w2 where
      "writeFile cs f wr w1 = Some (r2, wr2, w2)" by (metis prod_cases3)
    with Some cf Inr p show ?thesis
      by (cases r2) (simp_all add: handleFileSelectWith_def Let_def)
  qed
qed

text \<open>
  C1. For every file and every positive sub-chunk size the upload handler returns,
  and when the ingestion succeeds (the new entry is made active) the stored entry
  holds exactly the bytes of the file, so its length is the size of the file: the
  sub-chunks written during the run, in order, all go to the new entry, each has at
  most the sub-chunk size, and their concatenation is the byte content of the file.
  A host that rejects no call lets the ingestion succeed, unless the new name is
  taken by a directory. The handler of the source is the one with the sub-chunk size
  \<open>5 * 1024\<close>.
\<close>

theorem handleFileSelect_chunking_invariant:
  assumes "0 < cs"
  shows "(\<exists>w'. handleFileSelectWith cs uuid (Some file) w = Some w' \<and>
            (activeTextFileHandle w' \<noteq> None \<longrightarrow>
               activeTextFileHandle w' = Some (FileHandle (''text-'' @ uuid @ ''.txt'')) \<and>
               map_of (opfs w') (''text-'' @ uuid @ ''.txt'') = Some (FileEntry (fileBytes file)) \<and>
               length (fileBytes file) = fileSize file \<and>
               concat (map snd (newWrites w w')) = fileBytes file \<and>
               list_all (\<lambda>(t, c). t = ''text-'' @ uuid @ ''.txt'' \<and> length c \<le> cs)
                 (newWrites w w')) \<and>
            ((\<forall>k. faults w k = None) \<and>
             map_of (opfs w) (''text-'' @ uuid @ ''.txt'') \<noteq> Some DirectoryEntry \<longrightarrow>
               activeTextFileHandle w' \<noteq> None)) \<and>
         handleFileSelect uuid (Some file) w = handleFileSelectWith (5 * 1024) uuid (Some file) w"
proof -
  from handleFileSelectWith_returns [OF assms, of uuid "Some file" w] obtain w' where
    run: "handleFileSelectWith cs uuid (Some file) w = Some w'" by blast
  note res = handleFileSelectWith_result [OF assms run]
  have "activeTextFileHandle w' \<noteq> None \<longrightarrow>
          activeTextFileHandle w' = Some (FileHandle (''text-'' @ uuid @ ''.txt'')) \<and>
          map_of (opfs w') (''text-'' @ uuid @ ''.txt'') = Some (FileEntry (fileBytes file)) \<and>
          length (fileBytes file) = fileSize file \<and>
          concat (map snd (newWrites w w')) = fileBytes file \<and>
          list_all (\<lambda>(t, c). t = ''text-'' @ uuid @ ''.txt'' \<and> length c \<le> cs) (newWrites w w')"
    using res(3) by (auto simp: fileSize_def)
  moreover have "(\<forall>k. faults w k = None) \<and>
                 map_of (opfs w) (''text-'' @ uuid @ ''.txt'') \<noteq> Some DirectoryEntry \<longrightarrow>
                 activeTextFileHandle w' \<noteq> None"
    using res(4) by auto
  moreover have "handleFileSelect uuid (Some file) w
                   = handleFileSelectWith (5 * 1024) uuid (Some file) w"
    by (simp add: handleFileSelect_def CHUNK_SIZE_def)
  ultimately show ?thesis using run by blast
qed

theorem handleFileSelect_chunking_invariant_witness:
  "(\<exists>w'. handleFileSelectWith 2 ''u1'' (Some sevenBytes) initialState = Some w' \<and>
         map_of (opfs w') ''text-u1.txt'' = Some (FileEntry [1, 2, 3, 4, 5, 6, 7]) \<and>
         concat (map snd (newWrites initialState w')) = [1, 2, 3, 4, 5, 6, 7] \<and>
         list_all (\<lambda>(t, c). t = ''text-u1.txt'' \<and> length c \<le> 2) (newWrites initialState w')) \<and>
   (\<exists>w'. handleFileSelect ''u1'' (Some sevenBytes) initialState = Some w' \<and>
         map_of (opfs w') ''text-u1.txt'' = Some (FileEntry [1, 2, 3, 4, 5, 6, 7]) \<and>
         list_all (\<lambda>(t, c). t = ''text-u1.txt'' \<and> length c \<le> 5 * 1024) (newWrites initialState w')) \<and>
   map_option (\<lambda>w'. map snd (newWrites initialState w'))
     (handleFileSelectWith 2 ''u1'' (Some sevenBytes) initialState)
     = Some [[1, 2], [3, 4], [5], [6, 7]]"
proof -
  have h: "(0 :: nat) < 2" "(0 :: nat) < 5 * 1024" by simp_all
  have ok: "(\<forall>k. faults initialState k = None) \<and>
            map_of (opfs initialState) (''text-'' @ ''u1'' @ ''.txt'') \<noteq> Some DirectoryEntry"
    by (simp add: initialState_def)
  have bytes: "fileBytes sevenBytes = [1, 2, 3, 4, 5, 6, 7]"
    by (simp add: fileBytes_def sevenBytes_def)
  have trace: "map_option (\<lambda>w'. map snd (newWrites initialState w'))
     (handleFileSelectWith 2 ''u1'' (Some sevenBytes) initialState)
     = Some [[1, 2], [3, 4], [5], [6, 7]]"
    by (simp add: handleFileSelectWith_def writeFile_def writeSubChunks.simps subarray_def
        sevenBytes_def handleListFiles_def clearMessages_def host_defs Let_def newWrites_def
        toString_digit digit_def initialState_def)
  from handleFileSelect_chunking_invariant [OF h(1), of "''u1''" sevenBytes initialState]
    handleFileSelect_chunking_invariant [OF h(2), of "''u1''" sevenBytes initialState]
    ok bytes trace
  show ?thesis by auto
qed

text \<open>
  C10. Every ingestion attempt returns with no text displayed, and it ends with the
  \<open>Upload failed\<close> error exactly when it leaves the text category without an active
  entry: the handler clears the reference and the displayed content before its first
  host call, hence before any byte is written, and a run that fails at any later
  point, a write included, does not put back what was active before. A run whose
  first host call is rejected has written nothing and changed no entry, and has
  cleared the reference all the same.
\<close>

theorem handleFileSelect_failure_leaves_no_active_text:
  assumes "0 < cs"
  shows "\<exists>w'. handleFileSelectWith cs uuid (Some file) w = Some w' \<and>
           fileContent w' = '''' \<and>
           (startsWith (error w') ''Upload failed: '' \<longrightarrow> activeTextFileHandle w' = None) \<and>
           (activeTextFileHandle w' = None \<longrightarrow> startsWith (error w') ''Upload failed: '') \<and>
           (activeTextFileHandle w' \<noteq> None \<longrightarrow>
              activeTextFileHandle w' = Some (FileHandle (''text-'' @ uuid @ ''.txt''))) \<and>
           (faults w (calls w) \<noteq> None \<longrightarrow>
              activeTextFileHandle w' = None \<and> newWrites w w' = [] \<and> opfs w' = opfs w)"
proof -
  from handleFileSelectWith_returns [OF assms, of uuid "Some file" w] obtain w' where
    run: "handleFileSelectWith cs uuid (Some file) w = Some w'" by blast
  note res = handleFileSelectWith_result [OF assms run]
  have first: "activeTextFileHandle w' = None \<and> newWrites w w' = [] \<and> opfs w' = opfs w"
    if "faults w (calls w) \<noteq> None"
  proof -
    from that obtain e where "faults w (calls w) = Some e" by blast
    with run show ?thesis
      by (auto simp: handleFileSelectWith_def createFile_def andThen_def getDirectory_def
          hostcall_def clearMessages_def newWrites_def Let_def)
  qed
  have pre: "startsWith (''Upload failed: '' @ m) ''Upload failed: ''" for m
    by (simp add: startsWith_def)
  from res(3) have "(startsWith (error w') ''Upload failed: '' \<longrightarrow> activeTextFileHandle w' = None) \<and>
      (activeTextFileHandle w' = None \<longrightarrow> startsWith (error w') ''Upload failed: '') \<and>
      (activeTextFileHandle w' \<noteq> None \<longrightarrow>
         activeTextFileHandle w' = Some (FileHandle (''text-'' @ uuid @ ''.txt'')))"
  proof
    assume failed: "activeTextFileHandle w' = None \<and> (\<exists>e. error w' = ''Upload failed: '' @ message e)"
    then obtain e where "error w' = ''Upload failed: '' @ message e" by blast
    then have "startsWith (error w') ''Upload failed: ''" by (simp only: pre)
    moreover from failed have "activeTextFileHandle w' = None" by (rule conjunct1)
    ultimately show ?thesis by simp
  next
    assume "activeTextFileHandle w' = Some (FileHandle (''text-'' @ uuid @ ''.txt'')) \<and>
          \<not> startsWith (error w') ''Upload failed: '' \<and>
          map_of (opfs w') (''text-'' @ uuid @ ''.txt'') = Some (FileEntry (fileBytes file)) \<and>
          concat (map snd (newWrites w w')) = fileBytes file \<and>
          list_all (\<lambda>(t, c). t = ''text-'' @ uuid @ ''.txt'' \<and> length c \<le> cs) (newWrites w w')"
    then have "activeTextFileHandle w' = Some (FileHandle (''text-'' @ uuid @ ''.txt''))"
      and "\<not> startsWith (error w') ''Upload failed: ''"
      by (rule conjunct1, rule conjunct1 [OF conjunct2])
    then show ?thesis by simp
  qed
  with run res(1) first show ?thesis by (intro exI [of _ w']) simp
qed

theorem handleFileSelect_failure_leaves_no_active_text_witness:
  "activeTextFileHandle (textShown\<lparr>faults := rejectFifth\<rparr>) = Some (FileHandle ''text-a.txt'') \<and>
   fileContent (textShown\<lparr>faults := rejectFifth\<rparr>) = ''hi'' \<and>
   (\<exists>w'. handleFileSelectWith 2 ''u1'' (Some sevenBytes) (textShown\<lparr>faults := rejectFifth\<rparr>) = Some w' \<and>
         error w' = ''Upload failed: Quota exceeded'' \<and>
         newWrites (textShown\<lparr>faults := rejectFifth\<rparr>) w' = [] \<and>
         activeTextFileHandle w' = None \<and>
         fileContent w' = '''')"
proof -
  let ?w = "textShown\<lparr>faults := rejectFifth\<rparr>"
  have h: "(0 :: nat) < 2" by simp
  have before: "activeTextFileHandle ?w = Some (FileHandle ''text-a.txt'')" "fileContent ?w = ''hi''"
    by (simp_all add: textShown_def)
  have run: "map_option (\<lambda>w'. (error w', newWrites ?w w'))
               (handleFileSelectWith 2 ''u1'' (Some sevenBytes) ?w)
               = Some (''Upload failed: Quota exceeded'', [])"
    by (simp add: handleFileSelectWith_def writeFile_def writeSubChunks.simps subarray_def
        sevenBytes_def clearMessages_def host_defs Let_def newWrites_def rejectFifth_def
        textShown_def initialState_def)
  have pre: "startsWith ''Upload failed: Quota exceeded'' ''Upload failed: ''"
    by (simp add: startsWith_def)
  from handleFileSelect_failure_leaves_no_active_text [OF h, of "''u1''" sevenBytes ?w]
    run pre before
  show ?thesis by auto
qed

section \<open>Text files: the show action\<close>

text \<open>
  C9, as the code has it. The show action is a toggle. When a text entry is active
  and no text is displayed, it displays the stored bytes of that entry as the host's
  decoder gives them, provided the host serves the two reads; so the show action
  after an ingestion that the host serves displays the decoded bytes of the uploaded
  file. When a text is displayed already, the action hides it.
\<close>

theorem handleShowFile_shows_stored_bytes:
  "(activeTextFileHandle w = Some h \<and> fileContent w = '''' \<and>
    map_of (opfs w) (name h) = Some (FileEntry bs) \<and>
    faults w (calls w) = None \<and> faults w (Suc (calls w)) = None
      \<longrightarrow> fileContent (handleShowFile decode w) = decode bs) \<and>
   (activeTextFileHandle w = Some h \<and> fileContent w \<noteq> ''''
      \<longrightarrow> fileContent (handleShowFile decode w) = '''') \<and>
   (0 < cs \<and> (\<forall>k. faults w k = None) \<and>
    map_of (opfs w) (''text-'' @ uuid @ ''.txt'') \<noteq> Some DirectoryEntry
      \<longrightarrow> (\<exists>w'. handleFileSelectWith cs uuid (Some file) w = Some w' \<and>
                fileContent (handleShowFile decode w') = decode (fileBytes file)))"
proof (intro conjI impI)
  assume a: "activeTextFileHandle w = Some h \<and> fileContent w = '''' \<and>
    map_of (opfs w) (name h) = Some (FileEntry bs) \<and>
    faults w (calls w) = None \<and> faults w (Suc (calls w)) = None"
  then show "fileContent (handleShowFile decode w) = decode bs"
    by (simp add: handleShowFile_def clearMessages_def andThen_def getFile_def text_of_def
        hostcall_def fileBytes_def Let_def)
next
  assume "activeTextFileHandle w = Some h \<and> fileContent w \<noteq> ''''"
  then show "fileContent (handleShowFile decode w) = ''''"
    by (simp add: handleShowFile_def clearMessages_def Let_def)
next
  assume a: "0 < cs \<and> (\<forall>k. faults w k = None) \<and>
    map_of (opfs w) (''text-'' @ uuid @ ''.txt'') \<noteq> Some DirectoryEntry"
  then have cs: "0 < cs" by simp
  from handleFileSelectWith_returns [OF cs, of uuid "Some file" w] obtain w' where
    run: "handleFileSelectWith cs uuid (Some file) w = Some w'" by blast
  note res = handleFileSelectWith_result [OF cs run]
  from res(4) a have act: "activeTextFileHandle w' = Some (FileHandle (''text-'' @ uuid @ ''.txt''))"
    by simp
  with res(3) have st: "map_of (opfs w') (''text-'' @ uuid @ ''.txt'') = Some (FileEntry (fileBytes file))"
    by auto
  have nf: "faults w' (calls w') = None" "faults w' (Suc (calls w')) = None"
    using res(2) a by simp_all
  have "fileContent (handleShowFile decode w') = decode (fileBytes file)"
    using act st nf res(1)
    by (simp add: handleShowFile_def clearMessages_def andThen_def getFile_def text_of_def
        hostcall_def fileBytes_def Let_def)
  with run show "\<exists>w'. handleFileSelectWith cs uuid (Some file) w = Some w' \<and>
                fileContent (handleShowFile decode w') = decode (fileBytes file)"
    by blast
qed

theorem handleShowFile_shows_stored_bytes_witness:
  "fileContent (handleShowFile bytewise twoActive) = ''hi'' \<and>
   fileContent (handleShowFile bytewise textShown) = '''' \<and>
   (\<exists>w'. handleFileSelectWith 2 ''u1'' (Some notesFile) initialState = Some w' \<and>
         fileContent (handleShowFile bytewise w') = ''hi'')"
proof -
  have dec: "bytewise [104, 105] = ''hi''"
    by code_simp
  have one: "activeTextFileHandle twoActive = Some (FileHandle ''text-a.txt'') \<and>
             fileContent twoActive = '''' \<and>
             map_of (opfs twoActive) (name (FileHandle ''text-a.txt'')) = Some (FileEntry [104, 105]) \<and>
             faults twoActive (calls twoActive) = None \<and>
             faults twoActive (Suc (calls twoActive)) = None"
    by (simp add: twoActive_def initialState_def)
  have two: "activeTextFileHandle textShown = Some (FileHandle ''text-a.txt'') \<and>
             fileContent textShown \<noteq> ''''"
    by (simp add: textShown_def)
  have three: "(0 :: nat) < 2 \<and> (\<forall>k. faults initialState k = None) \<and>
               map_of (opfs initialState) (''text-'' @ ''u1'' @ ''.txt'') \<noteq> Some DirectoryEntry"
    by (simp add: initialState_def)
  have bytes: "fileBytes notesFile = [104, 105]"
    by (simp add: fileBytes_def notesFile_def)
  from handleShowFile_shows_stored_bytes
         [of twoActive "FileHandle ''text-a.txt''" "[104, 105]" bytewise 2 "''u1''" notesFile]
       handleShowFile_shows_stored_bytes
         [of textShown "FileHandle ''text-a.txt''" "[]" bytewise 2 "''u1''" notesFile]
       handleShowFile_shows_stored_bytes
         [of initialState "FileHandle ''text-a.txt''" "[]" bytewise 2 "''u1''" notesFile]
       one two three dec bytes
  show ?thesis by auto
qed

text \<open>
  C9 as stated fails: with the entry \<open>text-a.txt\<close> active and its text \<open>hi\<close> displayed,
  the show action leaves nothing displayed, while the stored bytes decode to \<open>hi\<close>.
\<close>

theorem handleShowFile_hides_displayed_text:
  "activeTextFileHandle textShown = Some (FileHandle ''text-a.txt'') \<and>
   map_of (opfs textShown) ''text-a.txt'' = Some (FileEntry [104, 105]) \<and>
   bytewise [104, 105] = ''hi'' \<and>
   fileContent (handleShowFile bytewise textShown) = '''' \<and>
   fileContent (handleShowFile bytewise textShown) \<noteq> bytewise [104, 105]"
proof -
  have dec: "bytewise [104, 105] = ''hi''"
    by code_simp
  have "fileContent (handleShowFile bytewise textShown) = ''''"
    by (simp add: handleShowFile_def clearMessages_def Let_def textShown_def)
  with dec show ?thesis by (simp add: textShown_def)
qed

end
